theory Spec2Isabelle
  imports Complex_Main "HOL-Library.AList" "HOL-Library.Sublist" "HOL-Library.Multiset"
    "HOL-Library.Log_Nat"
begin

section \<open>JavaScript values as the handlers of index.js see them\<close>

text \<open>
  The service of \<^verbatim>\<open>src/index.js\<close> is an Express application over a MongoDB store.
  Its route handlers are short; what they do is decided by the JavaScript operations
  they apply to the request (\<^verbatim>\<open>Number\<close>, \<^verbatim>\<open>Number.isNaN\<close>, \<^verbatim>\<open>!x\<close>, \<^verbatim>\<open>trim\<close>,
  \<^verbatim>\<open>new ObjectId\<close>) and by the store operations they call (\<^verbatim>\<open>find\<close>,
  \<^verbatim>\<open>findOneAndUpdate\<close>, \<^verbatim>\<open>insertOne\<close>). Those are modelled first, then the handlers
  are translated line by line.

  Conventions of the model.
  \<^item> A JavaScript number is a double: \<open>NaN\<close>, an infinity, or a finite value, held as
    the rational it stands for. Every operation that makes a number rounds its exact
    result to the nearest double, ties to even (\<open>round_double\<close>). The sign of zero is
    left out. Numbers in the store are taken to be doubles too.
  \<^item> A JavaScript string is the list of its UTF-16 code units (\<open>jstring\<close>); \<open>ascii\<close> turns
    a literal of this text into one. Keys of objects and the texts of the answers, which
    the handlers only compare with or copy from their own literals, stay plain strings.
  \<^item> An exception is a value \<open>Inl e\<close>; every handler has the shape
    \<^verbatim>\<open>try { ... } catch (err) { next(err) }\<close>, which \<open>handle\<close> below turns into the
    answer of the error handler.
  \<^item> The driver is of the generation the handler is written for: the result of
    \<^verbatim>\<open>findOneAndUpdate\<close> carries the document in its field \<^verbatim>\<open>value\<close> (mongodb 4 and 5,
    with the bson library that goes with them).
\<close>

subsection \<open>Doubles\<close>

datatype jsnum = NaN | PInf | NInf | Fin rat

definition pow2 :: "int \<Rightarrow> rat" where
  "pow2 k = (if 0 \<le> k then 2 ^ nat k else 1 / 2 ^ nat (- k))"

text \<open>
  The binary exponent \<open>\<lfloor>log\<^sub>2 a\<rfloor>\<close> of a positive rational: the lengths in bits of
  numerator and denominator give it up to one, and a comparison settles it.
\<close>

definition ilog2 :: "rat \<Rightarrow> int" where
  "ilog2 a =
     (let k = bitlen (fst (quotient_of a)) - bitlen (snd (quotient_of a))
      in if pow2 k \<le> a then k else k - 1)"

definition round_half_even :: "rat \<Rightarrow> int" where
  "round_half_even x =
     (let f = \<lfloor>x\<rfloor>; r = x - of_int f
      in if r < 1 / 2 then f
         else if 1 / 2 < r then f + 1
         else if even f then f else f + 1)"

text \<open>
  The double nearest to a rational. The spacing of the doubles around \<open>a\<close> is \<open>2^p\<close>, with
  \<open>p\<close> 52 below the exponent of \<open>a\<close> and never under \<open>-1074\<close> (the subnormal numbers);
  \<open>a\<close> is rounded to a multiple of it, and a result of \<open>2^1024\<close> or more is an infinity.
\<close>

definition round_double :: "rat \<Rightarrow> jsnum" where
  "round_double q =
     (if q = 0 then Fin 0
      else
        let a = \<bar>q\<bar>;
            p = max (ilog2 a - 52) (- 1074);
            r = of_int (round_half_even (a / pow2 p)) * pow2 p
        in if 2 ^ 1024 \<le> r then (if 0 < q then PInf else NInf)
           else Fin (if 0 < q then r else - r))"

text \<open>Addition of doubles, as \<^verbatim>\<open>$inc\<close> does it on the stored number.\<close>

fun num_add :: "jsnum \<Rightarrow> jsnum \<Rightarrow> jsnum" where
  "num_add NaN _ = NaN"
| "num_add _ NaN = NaN"
| "num_add PInf NInf = NaN"
| "num_add NInf PInf = NaN"
| "num_add PInf _ = PInf"
| "num_add _ PInf = PInf"
| "num_add NInf _ = NInf"
| "num_add _ NInf = NInf"
| "num_add (Fin a) (Fin b) = round_double (a + b)"

fun num_neg :: "jsnum \<Rightarrow> jsnum" where
  "num_neg NaN = NaN"
| "num_neg PInf = NInf"
| "num_neg NInf = PInf"
| "num_neg (Fin a) = Fin (- a)"

text \<open>\<^verbatim>\<open>Number.isNaN\<close>.\<close>

definition isNaN :: "jsnum \<Rightarrow> bool" where
  "isNaN n = (n = NaN)"

subsection \<open>Strings: trim and the numeric literals of Number\<close>

type_synonym jstring = "nat list"

definition ascii :: "string \<Rightarrow> jstring" where
  "ascii s = map of_char s"

text \<open>
  White space and line terminators of ECMAScript, which \<^verbatim>\<open>trim\<close> and \<^verbatim>\<open>Number\<close> strip:
  tab, line feed, vertical tab, form feed, carriage return, space, no-break space,
  the space separators of Unicode, the line and paragraph separators, and the byte
  order mark.
\<close>

definition is_ws :: "nat \<Rightarrow> bool" where
  "is_ws u =
     (u \<in> {0x09, 0x0A, 0x0B, 0x0C, 0x0D, 0x20, 0xA0, 0x1680, 0x2028, 0x2029, 0x202F, 0x205F,
            0x3000, 0xFEFF}
      \<or> (0x2000 \<le> u \<and> u \<le> 0x200A))"

text \<open>\<^verbatim>\<open>s.trim()\<close>: white space is removed at both ends.\<close>

definition trim :: "jstring \<Rightarrow> jstring" where
  "trim s = rev (dropWhile is_ws (rev (dropWhile is_ws s)))"

definition is_digit :: "nat \<Rightarrow> bool" where
  "is_digit u = (48 \<le> u \<and> u \<le> 57)"

definition hex_digit :: "nat \<Rightarrow> nat option" where
  "hex_digit u =
     (if 48 \<le> u \<and> u \<le> 57 then Some (u - 48)
      else if 97 \<le> u \<and> u \<le> 102 then Some (u - 87)
      else if 65 \<le> u \<and> u \<le> 70 then Some (u - 55)
      else None)"

definition digit_in :: "nat \<Rightarrow> nat \<Rightarrow> nat option" where
  "digit_in b u = (case hex_digit u of None \<Rightarrow> None | Some d \<Rightarrow> if d < b then Some d else None)"

fun radix_value :: "nat \<Rightarrow> nat \<Rightarrow> jstring \<Rightarrow> nat option" where
  "radix_value b acc [] = Some acc"
| "radix_value b acc (u # us) =
     (case digit_in b u of None \<Rightarrow> None | Some d \<Rightarrow> radix_value b (b * acc + d) us)"

text \<open>One or more digits of base \<open>b\<close>, and nothing else.\<close>

definition digits :: "nat \<Rightarrow> jstring \<Rightarrow> nat option" where
  "digits b us = (if us = [] then None else radix_value b 0 us)"

text \<open>\<open>SignedInteger\<close> of the exponent part: digits with an optional sign.\<close>

definition signed_integer :: "jstring \<Rightarrow> int option" where
  "signed_integer us =
     (case us of
        [] \<Rightarrow> None
      | u # ds \<Rightarrow>
          if u = of_char CHR ''+'' then map_option int (digits 10 ds)
          else if u = of_char CHR ''-'' then map_option (\<lambda>n. - int n) (digits 10 ds)
          else map_option int (digits 10 us))"

definition exponent_part :: "jstring \<Rightarrow> int option" where
  "exponent_part us =
     (case us of
        [] \<Rightarrow> Some 0
      | u # ds \<Rightarrow> if u = of_char CHR ''e'' \<or> u = of_char CHR ''E'' then signed_integer ds else None)"

definition pow10 :: "int \<Rightarrow> rat" where
  "pow10 k = (if 0 \<le> k then 10 ^ nat k else 1 / 10 ^ nat (- k))"

text \<open>
  \<open>StrUnsignedDecimalLiteral\<close> of ECMAScript: \<^verbatim>\<open>Infinity\<close>, or digits with an optional
  point and fraction (digits on at least one side of the point) and an optional exponent.
  Its value is the double nearest to the number the literal writes.
\<close>

definition str_unsigned_decimal :: "jstring \<Rightarrow> jsnum option" where
  "str_unsigned_decimal s =
     (if s = ascii ''Infinity'' then Some PInf
      else
        let ip = takeWhile is_digit s;
            r1 = dropWhile is_digit s;
            has_point = (r1 \<noteq> [] \<and> hd r1 = of_char CHR ''.'');
            fp = (if has_point then takeWhile is_digit (tl r1) else []);
            r2 = (if has_point then dropWhile is_digit (tl r1) else r1)
        in if ip = [] \<and> fp = [] then None
           else case radix_value 10 0 (ip @ fp) of
                  None \<Rightarrow> None
                | Some m \<Rightarrow>
                    (case exponent_part r2 of
                       None \<Rightarrow> None
                     | Some e \<Rightarrow> Some (round_double (of_nat m * pow10 (e - int (length fp))))))"

text \<open>\<open>StrDecimalLiteral\<close>: an optional sign before it.\<close>

definition str_decimal_literal :: "jstring \<Rightarrow> jsnum option" where
  "str_decimal_literal s =
     (case s of
        [] \<Rightarrow> None
      | u # r \<Rightarrow>
          if u = of_char CHR ''+'' then str_unsigned_decimal r
          else if u = of_char CHR ''-'' then map_option num_neg (str_unsigned_decimal r)
          else str_unsigned_decimal s)"

text \<open>\<open>NonDecimalIntegerLiteral\<close>: \<^verbatim>\<open>0b\<close>, \<^verbatim>\<open>0o\<close>, \<^verbatim>\<open>0x\<close> and digits, without a sign.\<close>

definition non_decimal_literal :: "jstring \<Rightarrow> jsnum option" where
  "non_decimal_literal s =
     (case s of
        z # x # ds \<Rightarrow>
          if z \<noteq> of_char CHR ''0'' then None
          else if x = of_char CHR ''b'' \<or> x = of_char CHR ''B''
            then map_option (\<lambda>n. round_double (of_nat n)) (digits 2 ds)
          else if x = of_char CHR ''o'' \<or> x = of_char CHR ''O''
            then map_option (\<lambda>n. round_double (of_nat n)) (digits 8 ds)
          else if x = of_char CHR ''x'' \<or> x = of_char CHR ''X''
            then map_option (\<lambda>n. round_double (of_nat n)) (digits 16 ds)
          else None
      | _ \<Rightarrow> None)"

text \<open>
  \<^verbatim>\<open>Number(s)\<close> on a string (\<open>StringToNumber\<close>): white space around the literal is
  dropped, the empty string is \<open>0\<close>, and a string that is not a numeric literal is \<open>NaN\<close>.
\<close>

definition string_to_number :: "jstring \<Rightarrow> jsnum" where
  "string_to_number s =
     (let t = trim s in
      if t = [] then Fin 0
      else case str_decimal_literal t of
             Some n \<Rightarrow> n
           | None \<Rightarrow> (case non_decimal_literal t of Some n \<Rightarrow> n | None \<Rightarrow> NaN))"

subsection \<open>Values of a parsed JSON body\<close>

datatype jsval =
    JUndefined
  | JNull
  | JBool bool
  | JNum jsnum
  | JStr jstring
  | JArr "jsval list"
  | JObj "(string \<times> jsval) list"

datatype error = TypeError | BSONError | MongoServerError

text \<open>
  Turning a value into a string or a number goes through its \<^verbatim>\<open>toString\<close> and
  \<^verbatim>\<open>valueOf\<close>. An object parsed from JSON inherits both, unless it has a property of
  that name of its own, which is never a function: with an own \<^verbatim>\<open>toString\<close> no method
  gives a primitive value and the conversion throws a TypeError. An array is converted
  through its elements.
\<close>

fun conversion_throws :: "jsval \<Rightarrow> bool" where
  "conversion_throws (JObj kvs) = (map_of kvs ''toString'' \<noteq> None)"
| "conversion_throws (JArr xs) = list_ex conversion_throws xs"
| "conversion_throws v = False"

text \<open>
  The number of an array that converts: the array becomes the string of its elements
  joined by commas, so an array of two or more elements is never a number, and one of a
  single element is the number of that element's string (\<^verbatim>\<open>null\<close> gives the empty
  string, a number gives back itself, a plain object \<^verbatim>\<open>[object Object]\<close>).
\<close>

fun array_number :: "jsval list \<Rightarrow> jsnum" where
  "array_number [] = Fin 0"
| "array_number [JUndefined] = Fin 0"
| "array_number [JNull] = Fin 0"
| "array_number [JBool b] = NaN"
| "array_number [JNum n] = n"
| "array_number [JStr s] = string_to_number s"
| "array_number [JObj kvs] = NaN"
| "array_number [JArr ys] = array_number ys"
| "array_number (x # y # zs) = NaN"

text \<open>
  \<^verbatim>\<open>Number(v)\<close> on a value of a parsed JSON body (\<open>JUndefined\<close> is a field that is
  absent).
\<close>

fun to_number :: "jsval \<Rightarrow> error + jsnum" where
  "to_number JUndefined = Inr NaN"
| "to_number JNull = Inr (Fin 0)"
| "to_number (JBool b) = Inr (if b then Fin 1 else Fin 0)"
| "to_number (JNum n) = Inr n"
| "to_number (JStr s) = Inr (string_to_number s)"
| "to_number (JObj kvs) = (if conversion_throws (JObj kvs) then Inl TypeError else Inr NaN)"
| "to_number (JArr xs) = (if conversion_throws (JArr xs) then Inl TypeError else Inr (array_number xs))"

text \<open>Truthiness, as \<^verbatim>\<open>!v\<close> and \<^verbatim>\<open>a || b\<close> read it.\<close>

fun truthy :: "jsval \<Rightarrow> bool" where
  "truthy JUndefined = False"
| "truthy JNull = False"
| "truthy (JBool b) = b"
| "truthy (JNum n) = (n \<noteq> NaN \<and> n \<noteq> Fin 0)"
| "truthy (JStr s) = (s \<noteq> [])"
| "truthy (JArr xs) = True"
| "truthy (JObj kvs) = True"

text \<open>
  \<^verbatim>\<open>v.k\<close> on a value that is neither \<^verbatim>\<open>undefined\<close> nor \<^verbatim>\<open>null\<close>, for the keys
  the handlers read (\<^verbatim>\<open>spacesDelta\<close>, \<^verbatim>\<open>items\<close>, \<^verbatim>\<open>name\<close>, \<^verbatim>\<open>phone\<close>): an object
  gives its own property or \<^verbatim>\<open>undefined\<close>, and no other value has such a property.
  The list of an object holds its own properties, one entry for each key, as
  \<^verbatim>\<open>JSON.parse\<close> leaves them.
\<close>

fun member_of :: "jsval \<Rightarrow> string \<Rightarrow> jsval" where
  "member_of (JObj kvs) k = (case map_of kvs k of None \<Rightarrow> JUndefined | Some v \<Rightarrow> v)"
| "member_of v k = JUndefined"

definition nullish :: "jsval \<Rightarrow> bool" where
  "nullish v = (v = JUndefined \<or> v = JNull)"

text \<open>The own properties that \<^verbatim>\<open>{...v}\<close> copies; a primitive has none.\<close>

fun spread :: "jsval \<Rightarrow> (string \<times> jsval) list" where
  "spread (JObj kvs) = kvs"
| "spread v = []"

section \<open>The store\<close>

text \<open>
  A lesson is a document of the \<^verbatim>\<open>lessons\<close> collection with the fields of the data model;
  \<open>lesson_id\<close> is its \<^verbatim>\<open>_id\<close>, the 12 bytes of an ObjectId.
\<close>

record lesson =
  lesson_id :: "nat list"
  subject :: jstring
  location :: jstring
  description :: jstring
  price :: jsnum
  spaces :: jsnum

text \<open>
  A stored order holds what the client sent and what the server and the store added:
  the date of \<^verbatim>\<open>new Date()\<close> in milliseconds, and an identity made by the driver.
\<close>

datatype docval = Client jsval | DateV int | IdV nat

type_synonym order_doc = "(string \<times> docval) list"

record db =
  lessons :: "lesson list"
  orders :: "order_doc list"

subsection \<open>Filters\<close>

datatype numfield = Price | Spaces

datatype textfield = Subject | Location | Description

text \<open>
  The conditions index.js builds: \<^verbatim>\<open>{ price: num }\<close>, \<^verbatim>\<open>{ spaces: num }\<close> and
  \<^verbatim>\<open>{ field: { $regex: q, $options: "i" } }\<close>; a query is \<^verbatim>\<open>{}\<close> or an \<^verbatim>\<open>$or\<close> of
  conditions.
\<close>

datatype cond = NumEq numfield jsnum | RegexI textfield jstring

datatype query = MatchAll | Or "cond list"

fun num_of :: "numfield \<Rightarrow> lesson \<Rightarrow> jsnum" where
  "num_of Price l = price l"
| "num_of Spaces l = spaces l"

fun text_of :: "textfield \<Rightarrow> lesson \<Rightarrow> jstring" where
  "text_of Subject l = subject l"
| "text_of Location l = location l"
| "text_of Description l = description l"

subsection \<open>Regular expressions\<close>

text \<open>
  The store reads the pattern of \<^verbatim>\<open>$regex\<close> as a regular expression. The model covers the
  patterns made of ordinary ASCII characters and of the dot, which stands for any
  character but a line feed, searched in ASCII texts. A pattern with another operator of
  the regular-expression syntax (\<^verbatim>\<open>\ ^ $ [ ] | ( ) ? * + { }\<close>), and a pattern or a text
  with a character beyond ASCII, are outside the model: \<open>find_docs\<close> gives \<open>None\<close> and
  nothing is said about the search. Option \<^verbatim>\<open>i\<close> compares letters without their case.
\<close>

datatype atom = Lit nat | Dot

definition regex_operator :: "nat \<Rightarrow> bool" where
  "regex_operator u = (u \<in> set (0x5C # ascii ''^$[]|()?*+{}''))"

fun compile_regex :: "jstring \<Rightarrow> atom list option" where
  "compile_regex [] = Some []"
| "compile_regex (u # us) =
     (if u = of_char CHR ''.'' then map_option ((#) Dot) (compile_regex us)
      else if regex_operator u \<or> 128 \<le> u then None
      else map_option ((#) (Lit u)) (compile_regex us))"

definition lower_unit :: "nat \<Rightarrow> nat" where
  "lower_unit u = (if 65 \<le> u \<and> u \<le> 90 then u + 32 else u)"

fun atom_match :: "atom \<Rightarrow> nat \<Rightarrow> bool" where
  "atom_match Dot u = (u \<noteq> 0x0A)"
| "atom_match (Lit a) u = (lower_unit a = lower_unit u)"

fun match_here :: "atom list \<Rightarrow> jstring \<Rightarrow> bool" where
  "match_here [] s = True"
| "match_here (a # as) [] = False"
| "match_here (a # as) (u # us) = (atom_match a u \<and> match_here as us)"

text \<open>The pattern is not anchored: it may match at any position of the text.\<close>

fun match_anywhere :: "atom list \<Rightarrow> jstring \<Rightarrow> bool" where
  "match_anywhere as [] = match_here as []"
| "match_anywhere as (u # us) = (match_here as (u # us) \<or> match_anywhere as us)"

subsection \<open>find\<close>

definition ascii_text :: "jstring \<Rightarrow> bool" where
  "ascii_text s = list_all (\<lambda>u. u < 128) s"

fun cond_modelled :: "lesson list \<Rightarrow> cond \<Rightarrow> bool" where
  "cond_modelled ls (NumEq f n) = True"
| "cond_modelled ls (RegexI f p) =
     (compile_regex p \<noteq> None \<and> list_all (\<lambda>l. ascii_text (text_of f l)) ls)"

fun query_modelled :: "lesson list \<Rightarrow> query \<Rightarrow> bool" where
  "query_modelled ls MatchAll = True"
| "query_modelled ls (Or cs) = list_all (cond_modelled ls) cs"

fun cond_holds :: "cond \<Rightarrow> lesson \<Rightarrow> bool" where
  "cond_holds (NumEq f n) l = (num_of f l = n)"
| "cond_holds (RegexI f p) l =
     (case compile_regex p of None \<Rightarrow> False | Some as \<Rightarrow> match_anywhere as (text_of f l))"

fun query_holds :: "query \<Rightarrow> lesson \<Rightarrow> bool" where
  "query_holds MatchAll l = True"
| "query_holds (Or cs) l = list_ex (\<lambda>c. cond_holds c l) cs"

text \<open>
  \<^verbatim>\<open>find(query).toArray()\<close>: the documents that satisfy the query, in the order of the
  collection; \<open>None\<close> when the search is outside the model.
\<close>

definition find_docs :: "query \<Rightarrow> lesson list \<Rightarrow> lesson list option" where
  "find_docs q ls = (if query_modelled ls q then Some (filter (query_holds q) ls) else None)"

subsection \<open>ObjectId\<close>

text \<open>
  \<^verbatim>\<open>new ObjectId(id)\<close> on the string of a path segment, in the bson library of the
  driver the handler is written for: a string of 12 characters stands for its 12 bytes
  (and is refused when its UTF-8 form is longer, that is when a character is beyond
  ASCII), a string of 24 hexadecimal digits for the 12 bytes it writes, and any other
  string makes the constructor throw.
\<close>

fun hex_bytes :: "jstring \<Rightarrow> nat list" where
  "hex_bytes (h # l # us) =
     (case (hex_digit h, hex_digit l) of
        (Some a, Some b) \<Rightarrow> (16 * a + b) # hex_bytes us
      | _ \<Rightarrow> [])"
| "hex_bytes us = []"

definition new_ObjectId :: "jstring \<Rightarrow> error + nat list" where
  "new_ObjectId s =
     (if length s = 12 then (if list_all (\<lambda>u. u < 128) s then Inr s else Inl BSONError)
      else if length s = 24 \<and> list_all (\<lambda>u. hex_digit u \<noteq> None) s then Inr (hex_bytes s)
      else Inl BSONError)"

subsection \<open>findOneAndUpdate and insertOne\<close>

text \<open>
  \<^verbatim>\<open>findOneAndUpdate({ _id: oid }, { $inc: { spaces: delta } }, { returnDocument: "after" })\<close>:
  the first document of that identity gets \<open>delta\<close> added to its \<open>spaces\<close>, and the
  \<^verbatim>\<open>value\<close> of the result is the document after the update, or \<^verbatim>\<open>null\<close> when there is
  none. The update has no condition on the value of \<open>spaces\<close>.
\<close>

fun find_one_and_update :: "nat list \<Rightarrow> jsnum \<Rightarrow> lesson list \<Rightarrow> lesson option \<times> lesson list" where
  "find_one_and_update oid delta [] = (None, [])"
| "find_one_and_update oid delta (l # ls) =
     (if lesson_id l = oid
      then (let l' = l\<lparr>spaces := num_add (spaces l) delta\<rparr> in (Some l', l' # ls))
      else (case find_one_and_update oid delta ls of (r, ls') \<Rightarrow> (r, l # ls')))"

text \<open>
  \<^verbatim>\<open>insertOne(doc)\<close>: a document without an \<^verbatim>\<open>_id\<close> (or with \<^verbatim>\<open>null\<close> there) gets the
  identity \<open>gen\<close> the driver makes; the store refuses an identity that a stored document
  has, and appends the document otherwise.
\<close>

definition doc_id :: "order_doc \<Rightarrow> docval option" where
  "doc_id doc = map_of doc ''_id''"

definition insert_one :: "docval \<Rightarrow> order_doc \<Rightarrow> order_doc list \<Rightarrow> error + docval \<times> order_doc list" where
  "insert_one gen doc docs =
     (let doc' = (if doc_id doc = None \<or> doc_id doc = Some (Client JNull)
                  then AList.update ''_id'' gen doc else doc);
          i = (case doc_id doc' of None \<Rightarrow> gen | Some v \<Rightarrow> v)
      in if Some i \<in> set (map doc_id docs) then Inl MongoServerError
         else Inr (i, docs @ [doc']))"

section \<open>The route handlers\<close>

datatype body = Text string | Lessons "lesson list" | OneLesson lesson | OrderOk docval

type_synonym response = "nat \<times> body"

text \<open>
  \<^verbatim>\<open>req.query.q\<close>: absent, a string, or (for \<^verbatim>\<open>q=a&q=b\<close> and \<^verbatim>\<open>q[k]=v\<close>) an array or an
  object, which has no \<^verbatim>\<open>trim\<close>.
\<close>

datatype qparam = QAbsent | QStr jstring | QOther

text \<open>\<^verbatim>\<open>GET /lessons\<close>.\<close>

definition get_lessons :: "db \<Rightarrow> (error + response \<times> db) option" where
  "get_lessons d = map_option (\<lambda>items. Inr ((200, Lessons items), d)) (find_docs MatchAll (lessons d))"

text \<open>
  \<^verbatim>\<open>GET /search\<close>. \<open>translate\<close> is the part of the handler that builds the query from
  the trimmed, non-empty token. The result of the handler is \<open>None\<close> only where the
  store's answer is outside the model (see \<open>compile_regex\<close>).
\<close>

definition missing_q :: string where
  "missing_q = ''Missing search query '' @ [CHR 0x27, CHR ''q'', CHR 0x27]"

definition translate :: "jstring \<Rightarrow> query" where
  "translate q =
     (let isNumeric = \<not> isNaN (string_to_number q) in
      if isNumeric then (let num = string_to_number q in Or [NumEq Price num, NumEq Spaces num])
      else Or [RegexI Subject q, RegexI Location q, RegexI Description q])"

definition get_search :: "qparam \<Rightarrow> db \<Rightarrow> (error + response \<times> db) option" where
  "get_search qp d =
     (case qp of
        QOther \<Rightarrow> Some (Inl TypeError)
      | _ \<Rightarrow>
          (let q = trim (case qp of QStr s \<Rightarrow> s | _ \<Rightarrow> []) in
           if q = [] then Some (Inr ((400, Text missing_q), d))
           else map_option (\<lambda>results. Inr ((200, Lessons results), d))
                  (find_docs (translate q) (lessons d))))"

text \<open>\<^verbatim>\<open>PUT /lessons/:id\<close>.\<close>

definition put_lesson :: "jstring \<Rightarrow> jsval \<Rightarrow> db \<Rightarrow> error + response \<times> db" where
  "put_lesson ident reqbody d =
     (if nullish reqbody then Inl TypeError
      else
        let spacesDelta = member_of reqbody ''spacesDelta'' in
        case to_number spacesDelta of
          Inl e \<Rightarrow> Inl e
        | Inr delta \<Rightarrow>
            if isNaN delta then Inr ((400, Text ''spacesDelta must be a number''), d)
            else case new_ObjectId ident of
                   Inl e \<Rightarrow> Inl e
                 | Inr oid \<Rightarrow>
                     (case find_one_and_update oid delta (lessons d) of
                        (None, ls) \<Rightarrow> Inr ((404, Text ''Lesson not found''), d\<lparr>lessons := ls\<rparr>)
                      | (Some l, ls) \<Rightarrow> Inr ((200, OneLesson l), d\<lparr>lessons := ls\<rparr>)))"

text \<open>
  \<^verbatim>\<open>POST /orders\<close>; \<open>now\<close> is what \<^verbatim>\<open>new Date()\<close> reads and \<open>gen\<close> the identity the
  driver would make.
\<close>

definition post_orders :: "int \<Rightarrow> docval \<Rightarrow> jsval \<Rightarrow> db \<Rightarrow> error + response \<times> db" where
  "post_orders now gen order d =
     (if \<not> truthy order \<or> \<not> truthy (member_of order ''items'')
         \<or> \<not> truthy (member_of order ''name'') \<or> \<not> truthy (member_of order ''phone'')
      then Inr ((400, Text ''Invalid order payload''), d)
      else
        case insert_one gen
               (AList.update ''createdAt'' (DateV now) (map (\<lambda>(k, v). (k, Client v)) (spread order)))
               (orders d) of
          Inl e \<Rightarrow> Inl e
        | Inr (i, docs) \<Rightarrow> Inr ((200, OrderOk i), d\<lparr>orders := docs\<rparr>))"

text \<open>
  What the client gets. An exception of a handler goes through \<^verbatim>\<open>next(err)\<close> to the
  error handler, which answers 500 and changes nothing. A request that arrives before
  the store is connected is answered 503 by the guard in front of the routes (the server
  listens only once \<^verbatim>\<open>connectDb\<close> has resolved, so a request it receives finds the store).
\<close>

definition answer :: "db \<Rightarrow> error + response \<times> db \<Rightarrow> response \<times> db" where
  "answer d r = (case r of Inl e \<Rightarrow> ((500, Text ''Server error''), d) | Inr p \<Rightarrow> p)"

definition handle :: "db option \<Rightarrow> (db \<Rightarrow> error + response \<times> db) \<Rightarrow> response \<times> db option" where
  "handle dbo h =
     (case dbo of
        None \<Rightarrow> ((503, Text ''Database not connected yet''), None)
      | Some d \<Rightarrow> (case answer d (h d) of (r, d') \<Rightarrow> (r, Some d')))"

text \<open>
  Requests in flight together. A \<^verbatim>\<open>PUT\<close> handler computes on its own request, makes one
  call to the store and answers; the store applies each \<^verbatim>\<open>findOneAndUpdate\<close> to a
  document as one step. So what concurrent requests do to the store is what they do
  when the store takes them one after another, in some order: \<open>serve_puts\<close> runs a list
  of \<^verbatim>\<open>PUT\<close> requests (path segment and body) in the order of the list and collects the
  answers.
\<close>

fun serve_puts :: "(jstring \<times> jsval) list \<Rightarrow> db \<Rightarrow> response list \<times> db" where
  "serve_puts [] d = ([], d)"
| "serve_puts (rq # rqs) d =
     (case answer d (put_lesson (fst rq) (snd rq) d) of
        (r, d') \<Rightarrow> (case serve_puts rqs d' of (rs, d'') \<Rightarrow> (r # rs, d'')))"

section \<open>Notions of the specification\<close>

text \<open>The Item of a given identity: the first lesson of the collection that has it.\<close>

definition find_lesson :: "nat list \<Rightarrow> lesson list \<Rightarrow> lesson option" where
  "find_lesson oid ls = List.find (\<lambda>l. lesson_id l = oid) ls"

text \<open>
  An integer that a double holds exactly, with its neighbours: at most \<open>2^53\<close> in size.
\<close>

definition safe_integer :: "int \<Rightarrow> bool" where
  "safe_integer n = (\<bar>n\<bar> \<le> 2 ^ 53)"

text \<open>
  A token occurs in a text as a case-insensitive substring: after both are put in lower
  case, the text is some prefix, the token, and some suffix.
\<close>

definition ci_substring :: "jstring \<Rightarrow> jstring \<Rightarrow> bool" where
  "ci_substring t s = sublist (map lower_unit t) (map lower_unit s)"

definition text_match :: "jstring \<Rightarrow> lesson \<Rightarrow> bool" where
  "text_match t l = (ci_substring t (subject l) \<or> ci_substring t (location l) \<or> ci_substring t (description l))"

text \<open>
  White space, by its code points: U+0009 to U+000D, U+0020, U+00A0, U+1680, U+2000 to
  U+200A, U+2028, U+2029, U+202F, U+205F, U+3000 and U+FEFF. A token is blank when it
  holds nothing else.
\<close>

definition white_space :: "nat list" where
  "white_space =
     [0x0009, 0x000A, 0x000B, 0x000C, 0x000D, 0x0020, 0x00A0, 0x1680, 0x2000, 0x2001, 0x2002,
      0x2003, 0x2004, 0x2005, 0x2006, 0x2007, 0x2008, 0x2009, 0x200A, 0x2028, 0x2029, 0x202F,
      0x205F, 0x3000, 0xFEFF]"

definition blank :: "jstring \<Rightarrow> bool" where
  "blank s = list_all (\<lambda>u. u \<in> set white_space) s"

text \<open>
  A decimal number as it is written: an optional sign, the digits of the integer part,
  optionally a point and the digits of the fraction, optionally an exponent (the letter
  in upper case or not, an optional sign, digits). \<open>numeral_units\<close> is the token that
  writes it and \<open>numeral_value\<close> the number it writes, by the place values of its digits.
\<close>

datatype sign = NoSign | Plus | Minus

record numeral =
  n_sign :: sign
  n_int :: "nat list"
  n_frac :: "nat list option"
  n_exp :: "(bool \<times> sign \<times> nat list) option"

fun sign_units :: "sign \<Rightarrow> jstring" where
  "sign_units NoSign = []"
| "sign_units Plus = ascii ''+''"
| "sign_units Minus = ascii ''-''"

fun sign_factor :: "sign \<Rightarrow> int" where
  "sign_factor NoSign = 1"
| "sign_factor Plus = 1"
| "sign_factor Minus = - 1"

definition digit_units :: "nat list \<Rightarrow> jstring" where
  "digit_units ds = map (\<lambda>d. 48 + d) ds"

definition decimal_digits :: "nat list \<Rightarrow> bool" where
  "decimal_digits ds = list_all (\<lambda>d. d < 10) ds"

fun place_value :: "nat list \<Rightarrow> nat" where
  "place_value [] = 0"
| "place_value (d # ds) = d * 10 ^ length ds + place_value ds"

definition frac_units :: "nat list option \<Rightarrow> jstring" where
  "frac_units fr = (case fr of None \<Rightarrow> [] | Some fp \<Rightarrow> ascii ''.'' @ digit_units fp)"

definition exp_units :: "(bool \<times> sign \<times> nat list) option \<Rightarrow> jstring" where
  "exp_units ex =
     (case ex of
        None \<Rightarrow> []
      | Some (up, s, ds) \<Rightarrow> (if up then ascii ''E'' else ascii ''e'') @ sign_units s @ digit_units ds)"

definition numeral_units :: "numeral \<Rightarrow> jstring" where
  "numeral_units n =
     sign_units (n_sign n) @ digit_units (n_int n) @ frac_units (n_frac n) @ exp_units (n_exp n)"

definition frac_value :: "nat list option \<Rightarrow> rat" where
  "frac_value fr = (case fr of None \<Rightarrow> 0 | Some fp \<Rightarrow> of_nat (place_value fp) / 10 ^ length fp)"

definition exp_value :: "(bool \<times> sign \<times> nat list) option \<Rightarrow> int" where
  "exp_value ex = (case ex of None \<Rightarrow> 0 | Some (up, s, ds) \<Rightarrow> sign_factor s * int (place_value ds))"

definition numeral_value :: "numeral \<Rightarrow> rat" where
  "numeral_value n =
     of_int (sign_factor (n_sign n)) * (of_nat (place_value (n_int n)) + frac_value (n_frac n))
       * 10 powi exp_value (n_exp n)"

definition frac_ok :: "nat list \<Rightarrow> nat list option \<Rightarrow> bool" where
  "frac_ok ip fr =
     (case fr of None \<Rightarrow> ip \<noteq> [] | Some fp \<Rightarrow> decimal_digits fp \<and> (ip \<noteq> [] \<or> fp \<noteq> []))"

definition exp_ok :: "(bool \<times> sign \<times> nat list) option \<Rightarrow> bool" where
  "exp_ok ex = (case ex of None \<Rightarrow> True | Some (up, s, ds) \<Rightarrow> decimal_digits ds \<and> ds \<noteq> [])"

text \<open>
  Well-formed: every digit is below ten, there is a digit before or after the point, and
  an exponent has a digit.
\<close>

definition numeral_ok :: "numeral \<Rightarrow> bool" where
  "numeral_ok n = (decimal_digits (n_int n) \<and> frac_ok (n_int n) (n_frac n) \<and> exp_ok (n_exp n))"

text \<open>A character that no numeric literal starts with: not a digit, a sign, a point or \<open>I\<close>.\<close>

definition starts_no_number :: "nat \<Rightarrow> bool" where
  "starts_no_number u =
     (u \<notin> set (ascii ''0123456789+-.I'') \<and> u \<notin> set white_space)"

text \<open>A hexadecimal digit, in either case.\<close>

definition hexadecimal :: "nat \<Rightarrow> bool" where
  "hexadecimal u = (u \<in> set (ascii ''0123456789abcdefABCDEF''))"

text \<open>The seed of the end-to-end example: one lesson, Math in Room1, price 20, 5 spaces.\<close>

definition math_id :: jstring where
  "math_id = ascii ''64b7f0a1c2d3e4f5a6b7c8d9''"

definition math_oid :: "nat list" where
  "math_oid = [0x64, 0xb7, 0xf0, 0xa1, 0xc2, 0xd3, 0xe4, 0xf5, 0xa6, 0xb7, 0xc8, 0xd9]"

definition math :: lesson where
  "math = \<lparr>lesson_id = math_oid, subject = ascii ''Math'', location = ascii ''Room1'',
            description = ascii ''Algebra for beginners'', price = Fin 20, spaces = Fin 5\<rparr>"

definition seed :: db where
  "seed = \<lparr>lessons = [math], orders = []\<rparr>"

definition delta_body :: "jsval \<Rightarrow> jsval" where
  "delta_body v = JObj [(''spacesDelta'', v)]"

text \<open>The same store when one space is left, and the request that takes one space.\<close>

definition one_left :: db where
  "one_left = \<lparr>lessons = [math\<lparr>spaces := Fin 1\<rparr>], orders = []\<rparr>"

definition take_one :: "jstring \<times> jsval" where
  "take_one = (math_id, delta_body (JNum (Fin (- 1))))"

text \<open>The numeral that writes twenty.\<close>

definition twenty :: numeral where
  "twenty = \<lparr>n_sign = NoSign, n_int = [2, 0], n_frac = None, n_exp = None\<rparr>"

text \<open>
  Order payloads: one with an empty list of items, one with an empty name, and a complete
  one that brings a \<^verbatim>\<open>createdAt\<close> of its own.
\<close>

definition empty_items_order :: jsval where
  "empty_items_order =
     JObj [(''items'', JArr []), (''name'', JStr (ascii ''Ann'')), (''phone'', JStr (ascii ''0123''))]"

definition blank_name_order :: jsval where
  "blank_name_order =
     JObj [(''items'', JArr [JStr math_id]), (''name'', JStr []), (''phone'', JStr (ascii ''0123''))]"

definition dated_order :: jsval where
  "dated_order =
     JObj [(''items'', JArr [JStr math_id]), (''name'', JStr (ascii ''Ann'')),
           (''createdAt'', JStr (ascii ''1999-01-01'')), (''phone'', JStr (ascii ''0123''))]"

section \<open>Rounding to a double is exact on the integers a double holds\<close>

lemma round_half_even_of_int: "round_half_even (of_int z) = z"
  by (simp add: round_half_even_def)

lemma pow2_pos: "0 < pow2 k"
  by (simp add: pow2_def)

lemma ilog2_of_int:
  assumes "0 < n"
  shows "ilog2 (of_int n) = bitlen n - 1"
proof -
  have b: "2 ^ nat (bitlen n - 1) \<le> n"
    using bitlen_bounds[OF assms] by simp
  have ge: "1 \<le> bitlen n"
    using assms by (simp add: bitlen_alt_def)
  have "bitlen 1 = 1"
    by (simp add: bitlen_alt_def)
  then have k: "bitlen (fst (quotient_of (of_int n))) - bitlen (snd (quotient_of (of_int n))) = bitlen n - 1"
    by simp
  have "pow2 (bitlen n - 1) = of_int (2 ^ nat (bitlen n - 1))"
    using ge by (simp add: pow2_def)
  also have "\<dots> \<le> of_int n"
    using b by (simp only: of_int_le_iff)
  finally show ?thesis
    unfolding ilog2_def k Let_def by simp
qed

lemma round_double_pos_int:
  assumes "0 < n" and "n \<le> 2 ^ 53"
  shows "round_double (of_int n) = Fin (of_int n)"
proof -
  define e where "e = bitlen n - 1"
  define p where "p = max (e - 52) (- 1074)"
  have e0: "0 \<le> e"
    using assms(1) by (simp add: e_def bitlen_alt_def)
  have lo: "2 ^ nat e \<le> n"
    using bitlen_bounds[OF assms(1)] by (simp add: e_def)
  then have h: "(2::int) ^ nat e \<le> 2 ^ 53"
    using assms(2) by linarith
  have "nat e \<le> 53"
    by (rule power_le_imp_le_exp[OF _ h]) simp
  then have e53: "e \<le> 53"
    by simp
  have pe: "p = e - 52"
    using e0 by (simp add: p_def)
  have ex: "\<exists>z. of_int n / pow2 p = of_int z \<and> of_int z * pow2 p = (of_int n :: rat)"
  proof (cases "e \<le> 52")
    case True
    then have "pow2 p = 1 / 2 ^ nat (52 - e)"
      by (cases "e = 52") (simp_all add: pe pow2_def)
    then have "of_int n / pow2 p = of_int (n * 2 ^ nat (52 - e)) \<and> of_int (n * 2 ^ nat (52 - e)) * pow2 p = (of_int n :: rat)"
      by simp
    then show ?thesis by blast
  next
    case False
    then have e: "e = 53"
      using e53 by simp
    then have n: "n = 2 ^ 53"
      using lo assms(2) by simp
    have "pow2 p = 2"
      by (simp add: pe e pow2_def)
    then have "of_int n / pow2 p = of_int (2 ^ 52) \<and> of_int (2 ^ 52) * pow2 p = (of_int n :: rat)"
      by (simp add: n)
    then show ?thesis by blast
  qed
  then obtain z where z1: "of_int n / pow2 p = of_int z" and z2: "of_int z * pow2 p = (of_int n :: rat)"
    by blast
  have small: "\<not> (2 ^ 1024 \<le> (of_int n :: rat))"
  proof -
    have "(of_int n :: rat) \<le> 2 ^ 53"
      using assms(2) by (metis of_int_le_iff of_int_numeral of_int_power)
    moreover have "(2::rat) ^ 53 < 2 ^ 1024"
      by (rule power_strict_increasing) simp_all
    ultimately show ?thesis by linarith
  qed
  have il: "ilog2 (of_int n) = e"
    using ilog2_of_int[OF assms(1)] by (simp add: e_def)
  have r: "of_int (round_half_even (of_int n / pow2 (max (ilog2 (of_int n) - 52) (- 1074))))
             * pow2 (max (ilog2 (of_int n) - 52) (- 1074)) = (of_int n :: rat)"
    unfolding il p_def[symmetric] z1 round_half_even_of_int z2 ..
  have n0: "(of_int n :: rat) \<noteq> 0" "0 < (of_int n :: rat)" "\<bar>of_int n :: rat\<bar> = of_int n"
    using assms(1) by simp_all
  show ?thesis
    unfolding round_double_def Let_def n0(3) r
    using n0(1,2) small by simp
qed

lemma round_double_minus: "round_double (- q) = num_neg (round_double q)"
  by (cases "q = 0"; cases "0 < q") (auto simp: round_double_def Let_def)

lemma round_double_of_int:
  assumes "\<bar>n\<bar> \<le> 2 ^ 53"
  shows "round_double (of_int n) = Fin (of_int n)"
proof -
  consider "n = 0" | "0 < n" | "n < 0" by linarith
  then show ?thesis
  proof cases
    case 1
    then show ?thesis by (simp add: round_double_def)
  next
    case 2
    then show ?thesis using assms by (simp add: round_double_pos_int)
  next
    case 3
    then have "round_double (of_int (- n)) = Fin (of_int (- n))"
      using assms by (intro round_double_pos_int) simp_all
    then have "round_double (- of_int n) = Fin (- of_int n)"
      by simp
    then show ?thesis
      unfolding round_double_minus by (cases "round_double (of_int n)") simp_all
  qed
qed

lemma round_double_number: "round_double q \<noteq> NaN"
  by (simp add: round_double_def Let_def)

section \<open>White space and trimming\<close>

lemma is_ws_white_space: "is_ws u \<longleftrightarrow> u \<in> set white_space"
proof
  assume "is_ws u"
  then consider "u \<in> {0x09, 0x0A, 0x0B, 0x0C, 0x0D, 0x20, 0xA0, 0x1680, 0x2028, 0x2029, 0x202F, 0x205F, 0x3000, 0xFEFF}"
    | "0x2000 \<le> u" "u \<le> 0x200A"
    by (auto simp: is_ws_def)
  then show "u \<in> set white_space"
  proof cases
    case 1
    then show ?thesis by (auto simp: white_space_def)
  next
    case 2
    then have "u \<in> {0x2000, 0x2001, 0x2002, 0x2003, 0x2004, 0x2005, 0x2006, 0x2007, 0x2008, 0x2009, 0x200A}"
      by (simp only: insert_iff empty_iff) arith
    then show ?thesis by (auto simp: white_space_def)
  qed
next
  assume "u \<in> set white_space"
  then show "is_ws u"
    by (auto simp: white_space_def is_ws_def)
qed

lemma blank_iff: "blank s \<longleftrightarrow> list_all is_ws s"
proof -
  have "(\<lambda>u. u \<in> set white_space) = is_ws"
    by (rule ext) (simp add: is_ws_white_space)
  then show ?thesis
    by (simp add: blank_def)
qed


lemma trim_blank: "blank t \<Longrightarrow> trim t = []"
proof -
  assume "blank t"
  then have e: "dropWhile is_ws t = []"
    by (induction t) (simp_all add: blank_iff)
  show ?thesis
    unfolding trim_def e by simp
qed

text \<open>What \<open>trim\<close> leaves of a token that has text between its blanks.\<close>

lemma trim_core:
  assumes "blank ws1" and "blank ws2"
    and "core \<noteq> []" and "\<not> is_ws (hd core)" and "\<not> is_ws (last core)"
  shows "trim (ws1 @ core @ ws2) = core"
proof -
  have 1: "dropWhile is_ws (ws1 @ core @ ws2) = core @ ws2"
  proof -
    have "dropWhile is_ws (ws1 @ (core @ ws2)) = dropWhile is_ws (core @ ws2)"
      using assms(1) by (intro dropWhile_append2) (simp add: blank_iff list_all_iff)
    moreover have "dropWhile is_ws (core @ ws2) = core @ ws2"
      using assms(3,4) by (cases core) simp_all
    ultimately show ?thesis by simp
  qed
  have 2: "dropWhile is_ws (rev (core @ ws2)) = rev core"
  proof -
    have "dropWhile is_ws (rev ws2 @ rev core) = dropWhile is_ws (rev core)"
      using assms(2) by (intro dropWhile_append2) (simp add: blank_iff list_all_iff)
    moreover have "dropWhile is_ws (rev core) = rev core"
      using assms(3,5) by (cases "rev core") (simp_all add: hd_rev dropWhile_eq_self_iff)
    ultimately show ?thesis by simp
  qed
  show ?thesis
    unfolding trim_def 1 2 by simp
qed

lemma trim_idem: "trim (trim s) = trim s"
proof -
  define u where "u = dropWhile is_ws s"
  define w where "w = dropWhile is_ws (rev u)"
  have A: "dropWhile is_ws (rev w) = rev w"
  proof (cases "w = []")
    case True
    then show ?thesis by simp
  next
    case False
    have "rev u = takeWhile is_ws (rev u) @ w"
      by (simp add: w_def)
    then have "last (rev u) = last w"
      using False by (metis last_appendR)
    moreover have "u \<noteq> []"
      using False by (auto simp: w_def)
    ultimately have "last w = hd u"
      by (simp add: last_rev)
    moreover have "\<not> is_ws (hd u)"
      using \<open>u \<noteq> []\<close> hd_dropWhile[of is_ws s] by (simp add: u_def)
    ultimately have "\<not> is_ws (hd (rev w))"
      using False by (simp add: hd_rev)
    then show ?thesis
      by (simp add: dropWhile_eq_self_iff)
  qed
  have B: "dropWhile is_ws w = w"
    by (simp add: w_def)
  show ?thesis
    unfolding trim_def using A B by (simp add: u_def[symmetric] w_def[symmetric])
qed

section \<open>The number a decimal token writes is the number the parser reads\<close>

lemma pow10_powi: "pow10 k = 10 powi k"
  by (simp add: pow10_def power_int_def power_one_over inverse_eq_divide)

lemma digit_unit_facts:
  assumes "d < 10"
  shows "is_digit (48 + d)" and "digit_in 10 (48 + d) = Some d"
  using assms by (simp_all add: is_digit_def digit_in_def hex_digit_def)

lemma radix_digit_units:
  "decimal_digits ds \<Longrightarrow> radix_value 10 acc (digit_units ds) = Some (acc * 10 ^ length ds + place_value ds)"
proof (induction ds arbitrary: acc)
  case Nil
  then show ?case by (simp add: digit_units_def)
next
  case (Cons d ds)
  then have d: "d < 10" and ds: "decimal_digits ds"
    by (simp_all add: decimal_digits_def)
  have "radix_value 10 acc (digit_units (d # ds)) = radix_value 10 (10 * acc + d) (digit_units ds)"
    using digit_unit_facts(2)[OF d] by (simp add: digit_units_def)
  then show ?case
    using Cons.IH[OF ds] by (simp add: algebra_simps)
qed

lemma place_value_append:
  "place_value (xs @ ys) = place_value xs * 10 ^ length ys + place_value ys"
  by (induction xs) (simp_all add: algebra_simps power_add)

lemma digit_units_append: "digit_units (xs @ ys) = digit_units xs @ digit_units ys"
  by (simp add: digit_units_def)

lemma digit_units_Nil_iff: "digit_units ds = [] \<longleftrightarrow> ds = []"
  by (simp add: digit_units_def)

lemma all_digit_units: "decimal_digits ds \<Longrightarrow> u \<in> set (digit_units ds) \<Longrightarrow> is_digit u"
  by (auto simp: decimal_digits_def digit_units_def list_all_iff digit_unit_facts(1))

lemma split_digit_units:
  assumes "decimal_digits ds" and "rest = [] \<or> \<not> is_digit (hd rest)"
  shows "takeWhile is_digit (digit_units ds @ rest) = digit_units ds"
    and "dropWhile is_digit (digit_units ds @ rest) = rest"
proof -
  have r: "takeWhile is_digit rest = []" "dropWhile is_digit rest = rest"
    using assms(2) by (cases rest; simp)+
  show "takeWhile is_digit (digit_units ds @ rest) = digit_units ds"
    using all_digit_units[OF assms(1)] r by (simp add: takeWhile_append2)
  show "dropWhile is_digit (digit_units ds @ rest) = rest"
    using all_digit_units[OF assms(1)] r by (simp add: dropWhile_append2)
qed

lemma digits_digit_units:
  "decimal_digits ds \<Longrightarrow> ds \<noteq> [] \<Longrightarrow> digits 10 (digit_units ds) = Some (place_value ds)"
  by (simp add: digits_def digit_units_Nil_iff radix_digit_units)

lemma hd_digit_units:
  "decimal_digits ds \<Longrightarrow> ds \<noteq> [] \<Longrightarrow> is_digit (hd (digit_units ds))"
  by (cases ds) (simp_all add: digit_units_def decimal_digits_def digit_unit_facts(1))

lemma signed_integer_units:
  assumes "decimal_digits ds" and "ds \<noteq> []"
  shows "signed_integer (sign_units s @ digit_units ds) = Some (sign_factor s * int (place_value ds))"
proof (cases s)
  case NoSign
  obtain u us where c: "digit_units ds = u # us"
    using assms(2) by (cases "digit_units ds") (simp_all add: digit_units_Nil_iff)
  have "is_digit u"
    using hd_digit_units[OF assms] c by simp
  then have "u \<noteq> of_char CHR ''+''" "u \<noteq> of_char CHR ''-''"
    by (auto simp: is_digit_def)
  then show ?thesis
    using NoSign c digits_digit_units[OF assms] by (simp add: signed_integer_def)
next
  case Plus
  then show ?thesis
    using digits_digit_units[OF assms] by (simp add: signed_integer_def ascii_def)
next
  case Minus
  then show ?thesis
    using digits_digit_units[OF assms] by (simp add: signed_integer_def ascii_def)
qed

lemma exponent_part_units:
  assumes "exp_ok ex"
  shows "exponent_part (exp_units ex) = Some (exp_value ex)"
proof (cases ex)
  case None
  then show ?thesis by (simp add: exp_units_def exp_value_def exponent_part_def)
next
  case (Some t)
  obtain up s ds where t: "t = (up, s, ds)" by (cases t)
  have ok: "decimal_digits ds" "ds \<noteq> []"
    using assms Some t by (simp_all add: exp_ok_def)
  show ?thesis
    using signed_integer_units[OF ok, of s] Some t
    by (simp add: exp_units_def exp_value_def exponent_part_def ascii_def)
qed

lemma exp_units_head:
  "exp_units ex = [] \<or> (\<not> is_digit (hd (exp_units ex)) \<and> hd (exp_units ex) \<noteq> of_char CHR ''.'')"
proof (cases ex)
  case None
  then show ?thesis by (simp add: exp_units_def)
next
  case (Some t)
  obtain up s ds where t: "t = (up, s, ds)" by (cases t)
  show ?thesis
    using Some t by (cases up) (simp_all add: exp_units_def ascii_def is_digit_def)
qed

lemma digit_units_small: "decimal_digits ds \<Longrightarrow> u \<in> set (digit_units ds) \<Longrightarrow> u \<le> 57"
  using all_digit_units[of ds u] by (simp add: is_digit_def)

lemma frac_units_small:
  assumes "frac_ok ip fr" and "u \<in> set (frac_units fr)"
  shows "u \<le> 57"
proof (cases fr)
  case None
  then show ?thesis using assms(2) by (simp add: frac_units_def)
next
  case (Some fp)
  then have "decimal_digits fp"
    using assms(1) by (simp add: frac_ok_def)
  then show ?thesis
    using assms(2) Some digit_units_small[of fp u] by (auto simp: frac_units_def ascii_def)
qed

lemma sign_units_small: "u \<in> set (sign_units s) \<Longrightarrow> u \<le> 57"
  by (cases s) (simp_all add: ascii_def)

lemma exp_units_no_I:
  assumes "exp_ok ex" and "u \<in> set (exp_units ex)"
  shows "u \<noteq> 73"
proof (cases ex)
  case None
  then show ?thesis using assms(2) by (simp add: exp_units_def)
next
  case (Some t)
  obtain up s ds where t: "t = (up, s, ds)" by (cases t)
  have "decimal_digits ds"
    using assms(1) Some t by (simp add: exp_ok_def)
  then show ?thesis
    using assms(2) Some t digit_units_small[of ds u] sign_units_small[of u s]
    by (cases up) (auto simp: exp_units_def ascii_def)
qed

lemma unsigned_units_not_Infinity:
  assumes "decimal_digits ip" and "frac_ok ip fr" and "exp_ok ex"
  shows "digit_units ip @ frac_units fr @ exp_units ex \<noteq> ascii ''Infinity''"
proof
  assume e: "digit_units ip @ frac_units fr @ exp_units ex = ascii ''Infinity''"
  have "73 \<in> set (ascii ''Infinity'')"
    by (simp add: ascii_def)
  then have "73 \<in> set (digit_units ip) \<or> 73 \<in> set (frac_units fr) \<or> 73 \<in> set (exp_units ex)"
    unfolding e[symmetric] by simp
  then show False
    using digit_units_small[OF assms(1), of 73] frac_units_small[OF assms(2), of 73]
      exp_units_no_I[OF assms(3), of 73] by auto
qed

lemma str_unsigned_decimal_units:
  assumes "decimal_digits ip" and "frac_ok ip fr" and "exp_ok ex"
  shows "str_unsigned_decimal (digit_units ip @ frac_units fr @ exp_units ex)
         = Some (round_double ((of_nat (place_value ip) + frac_value fr) * 10 powi exp_value ex))"
proof -
  define E where "E = exp_units ex"
  define D where "D = digit_units ip"
  have Eh: "E = [] \<or> (\<not> is_digit (hd E) \<and> hd E \<noteq> of_char CHR ''.'')"
    unfolding E_def by (rule exp_units_head)
  have Ee: "exponent_part E = Some (exp_value ex)"
    unfolding E_def using assms(3) by (rule exponent_part_units)
  have ninf: "D @ frac_units fr @ E \<noteq> ascii ''Infinity''"
    unfolding D_def E_def using assms by (rule unsigned_units_not_Infinity)
  show ?thesis
  proof (cases fr)
    case None
    have ne: "D \<noteq> []"
      using assms(2) None by (simp add: frac_ok_def D_def digit_units_Nil_iff)
    have tw: "takeWhile is_digit (D @ E) = D" and dw: "dropWhile is_digit (D @ E) = E"
      unfolding D_def using split_digit_units[OF assms(1), of E] Eh by auto
    have hp: "(E \<noteq> [] \<and> hd E = 46) = False"
      using Eh by auto
    have rv: "radix_value 10 0 D = Some (place_value ip)"
      unfolding D_def using radix_digit_units[OF assms(1), of 0] by simp
    have "str_unsigned_decimal (D @ E)
            = Some (round_double (of_nat (place_value ip) * pow10 (exp_value ex)))"
      using ninf None ne
      by (simp add: str_unsigned_decimal_def Let_def tw dw hp rv Ee frac_units_def)
    then show ?thesis
      using None by (simp add: D_def E_def frac_units_def frac_value_def pow10_powi)
  next
    case (Some fp)
    define F where "F = digit_units fp"
    have fpd: "decimal_digits fp" and nn: "ip \<noteq> [] \<or> fp \<noteq> []"
      using assms(2) Some by (simp_all add: frac_ok_def)
    have fu: "frac_units fr = 46 # F"
      using Some by (simp add: frac_units_def F_def ascii_def)
    have nd: "\<not> is_digit 46"
      by (simp add: is_digit_def)
    have tw: "takeWhile is_digit (D @ 46 # F @ E) = D"
      and dw: "dropWhile is_digit (D @ 46 # F @ E) = 46 # F @ E"
      unfolding D_def using split_digit_units[OF assms(1), of "46 # F @ E"] nd by auto
    have tw2: "takeWhile is_digit (F @ E) = F" and dw2: "dropWhile is_digit (F @ E) = E"
      unfolding F_def using split_digit_units[OF fpd, of E] Eh by auto
    have ne: "\<not> (D = [] \<and> F = [])"
      using nn by (simp add: D_def F_def digit_units_Nil_iff)
    have "decimal_digits (ip @ fp)"
      using assms(1) fpd by (simp add: decimal_digits_def)
    then have rv: "radix_value 10 0 (D @ F) = Some (place_value ip * 10 ^ length fp + place_value fp)"
      unfolding D_def F_def digit_units_append[symmetric]
      using radix_digit_units[of "ip @ fp" 0] by (simp add: place_value_append)
    have lf: "length F = length fp"
      by (simp add: F_def digit_units_def)
    have "str_unsigned_decimal (D @ 46 # F @ E)
            = Some (round_double (of_nat (place_value ip * 10 ^ length fp + place_value fp)
                                  * pow10 (exp_value ex - int (length fp))))"
      using ninf ne unfolding fu
      by (simp add: str_unsigned_decimal_def Let_def tw dw tw2 dw2 rv Ee lf)
    moreover have "of_nat (place_value ip * 10 ^ length fp + place_value fp)
                     * pow10 (exp_value ex - int (length fp))
                   = (of_nat (place_value ip) + frac_value fr) * 10 powi exp_value ex"
      using Some by (simp add: pow10_powi power_int_diff frac_value_def field_simps)
    ultimately show ?thesis
      by (simp add: D_def E_def fu)
  qed
qed

lemma numeral_unit_range:
  assumes "numeral_ok n" and "u \<in> set (numeral_units n)"
  shows "43 \<le> u \<and> u \<le> 101"
proof -
  have dig: "43 \<le> v \<and> v \<le> 101" if "decimal_digits ds" "v \<in> set (digit_units ds)" for ds v
    using that by (auto simp: decimal_digits_def digit_units_def list_all_iff)
  have sg: "43 \<le> v \<and> v \<le> 101" if "v \<in> set (sign_units s)" for s v
    using that by (cases s) (simp_all add: ascii_def)
  have fr: "43 \<le> v \<and> v \<le> 101" if "v \<in> set (frac_units (n_frac n))" for v
  proof (cases "n_frac n")
    case None
    then show ?thesis using that by (simp add: frac_units_def)
  next
    case (Some fp)
    then have "decimal_digits fp"
      using assms(1) by (simp add: numeral_ok_def frac_ok_def)
    then show ?thesis
      using that Some dig[of fp v] by (auto simp: frac_units_def ascii_def)
  qed
  have ex: "43 \<le> v \<and> v \<le> 101" if "v \<in> set (exp_units (n_exp n))" for v
  proof (cases "n_exp n")
    case None
    then show ?thesis using that by (simp add: exp_units_def)
  next
    case (Some t)
    obtain up s ds where t: "t = (up, s, ds)" by (cases t)
    have "decimal_digits ds"
      using assms(1) Some t by (simp add: numeral_ok_def exp_ok_def)
    then show ?thesis
      using that Some t dig[of ds v] sg[of v s]
      by (cases up) (auto simp: exp_units_def ascii_def)
  qed
  have "decimal_digits (n_int n)"
    using assms(1) by (simp add: numeral_ok_def)
  then show ?thesis
    using assms(2) dig[of "n_int n" u] sg[of u "n_sign n"] fr[of u] ex[of u]
    by (auto simp: numeral_units_def)
qed

lemma numeral_units_no_ws: "numeral_ok n \<Longrightarrow> u \<in> set (numeral_units n) \<Longrightarrow> \<not> is_ws u"
  using numeral_unit_range[of n u] by (auto simp: is_ws_def)

lemma unsigned_units_hd:
  assumes "decimal_digits ip" and "frac_ok ip fr"
  shows "\<exists>u us. digit_units ip @ frac_units fr @ exp_units ex = u # us \<and> (is_digit u \<or> u = 46)"
proof (cases ip)
  case Nil
  then obtain fp where "fr = Some fp"
    using assms(2) by (cases fr) (simp_all add: frac_ok_def)
  then show ?thesis
    using Nil by (simp add: digit_units_def frac_units_def ascii_def)
next
  case (Cons d ds)
  then have "d < 10"
    using assms(1) by (simp add: decimal_digits_def)
  then show ?thesis
    using Cons by (simp add: digit_units_def digit_unit_facts(1))
qed

lemma str_decimal_literal_units:
  assumes "numeral_ok n"
  shows "str_decimal_literal (numeral_units n) = Some (round_double (numeral_value n))"
proof -
  define U where "U = digit_units (n_int n) @ frac_units (n_frac n) @ exp_units (n_exp n)"
  define x where "x = (of_nat (place_value (n_int n)) + frac_value (n_frac n)) * 10 powi exp_value (n_exp n)"
  have ok: "decimal_digits (n_int n)" "frac_ok (n_int n) (n_frac n)" "exp_ok (n_exp n)"
    using assms by (simp_all add: numeral_ok_def)
  have un: "str_unsigned_decimal U = Some (round_double x)"
    unfolding U_def x_def using ok by (rule str_unsigned_decimal_units)
  obtain u us where U: "U = u # us" and u: "is_digit u \<or> u = 46"
    using unsigned_units_hd[OF ok(1,2), of "n_exp n"] unfolding U_def by blast
  have nosign: "u \<noteq> 43" "u \<noteq> 45"
    using u by (auto simp: is_digit_def)
  show ?thesis
  proof (cases "n_sign n")
    case NoSign
    then have "numeral_units n = U" "numeral_value n = x"
      by (simp_all add: numeral_units_def numeral_value_def U_def x_def)
    moreover have "str_decimal_literal U = str_unsigned_decimal U"
      using nosign by (simp add: str_decimal_literal_def U)
    ultimately show ?thesis
      using un by simp
  next
    case Plus
    then have "numeral_units n = 43 # U" "numeral_value n = x"
      by (simp_all add: numeral_units_def numeral_value_def U_def x_def ascii_def)
    then show ?thesis
      using un by (simp add: str_decimal_literal_def)
  next
    case Minus
    then have "numeral_units n = 45 # U" "numeral_value n = - x"
      by (simp_all add: numeral_units_def numeral_value_def U_def x_def ascii_def algebra_simps)
    then show ?thesis
      using un by (simp add: str_decimal_literal_def round_double_minus)
  qed
qed

lemma numeral_units_nonempty: "numeral_ok n \<Longrightarrow> numeral_units n \<noteq> []"
  using str_decimal_literal_units[of n] by (auto simp: str_decimal_literal_def)

lemma trim_numeral:
  assumes "numeral_ok n" and "blank ws1" and "blank ws2"
  shows "trim (ws1 @ numeral_units n @ ws2) = numeral_units n"
proof (rule trim_core[OF assms(2,3)])
  show ne: "numeral_units n \<noteq> []"
    using assms(1) by (rule numeral_units_nonempty)
  show "\<not> is_ws (hd (numeral_units n))"
    using ne numeral_units_no_ws[OF assms(1)] by simp
  show "\<not> is_ws (last (numeral_units n))"
    using ne numeral_units_no_ws[OF assms(1)] by simp
qed

lemma blank_Nil: "blank []"
  by (simp add: blank_def)

lemma string_to_number_numeral:
  assumes "numeral_ok n"
  shows "string_to_number (numeral_units n) = round_double (numeral_value n)"
  using trim_numeral[OF assms blank_Nil blank_Nil] numeral_units_nonempty[OF assms]
    str_decimal_literal_units[OF assms]
  by (simp add: string_to_number_def)

text \<open>Strings that are no numeric literal.\<close>

lemma dropWhile_snoc: "\<not> P x \<Longrightarrow> \<exists>zs. dropWhile P (ys @ [x]) = zs @ [x]"
  by (induction ys) auto

lemma trim_hd:
  assumes "blank ws" and "\<not> is_ws x"
  shows "\<exists>ys. trim (ws @ x # xs) = x # ys"
proof -
  have 1: "dropWhile is_ws (ws @ x # xs) = x # xs"
  proof -
    have "dropWhile is_ws (ws @ x # xs) = dropWhile is_ws (x # xs)"
      using assms(1) by (intro dropWhile_append2) (simp add: blank_iff list_all_iff)
    then show ?thesis using assms(2) by simp
  qed
  obtain zs where "dropWhile is_ws (rev xs @ [x]) = zs @ [x]"
    using dropWhile_snoc[of is_ws x "rev xs"] assms(2) by blast
  then show ?thesis
    unfolding trim_def 1 by simp
qed

lemma string_to_number_no_number:
  assumes "blank ws" and "core \<noteq> []" and "starts_no_number (hd core)"
  shows "string_to_number (ws @ core) = NaN"
proof -
  obtain x xs where core: "core = x # xs"
    using assms(2) by (cases core) simp_all
  have x: "x \<notin> set (ascii ''0123456789+-.I'')" "\<not> is_ws x"
    using assms(3) core by (simp_all add: starts_no_number_def is_ws_white_space)
  obtain ys where t: "trim (ws @ core) = x # ys"
    using trim_hd[OF assms(1) x(2)] core by blast
  have nd0: "\<not> is_digit x"
    using x(1) by (simp add: ascii_def is_digit_def) arith
  have nd: "\<not> is_digit x" "x \<noteq> 43" "x \<noteq> 45" "x \<noteq> 46" "x \<noteq> 73" "x \<noteq> 48"
    using x(1) nd0 by (simp_all add: ascii_def)
  have "x # ys \<noteq> ascii ''Infinity''"
    using nd(5) by (auto simp: ascii_def)
  then have "str_unsigned_decimal (x # ys) = None"
    using nd by (simp add: str_unsigned_decimal_def Let_def)
  then have 1: "str_decimal_literal (x # ys) = None"
    using nd by (simp add: str_decimal_literal_def)
  have 2: "non_decimal_literal (x # ys) = None"
    using nd(6) by (cases ys) (simp_all add: non_decimal_literal_def)
  show ?thesis
    using 1 2 by (simp add: string_to_number_def t)
qed

section \<open>Identities\<close>

lemma hex_digit_iff: "hex_digit u \<noteq> None \<longleftrightarrow> hexadecimal u"
proof
  assume "hex_digit u \<noteq> None"
  then consider "48 \<le> u" "u \<le> 57" | "97 \<le> u" "u \<le> 102" | "65 \<le> u" "u \<le> 70"
    by (auto simp: hex_digit_def split: if_splits)
  then show "hexadecimal u"
  proof cases
    case 1
    then have "u \<in> {48, 49, 50, 51, 52, 53, 54, 55, 56, 57}"
      by (simp only: insert_iff empty_iff) arith
    then show ?thesis by (auto simp: hexadecimal_def ascii_def)
  next
    case 2
    then have "u \<in> {97, 98, 99, 100, 101, 102}"
      by (simp only: insert_iff empty_iff) arith
    then show ?thesis by (auto simp: hexadecimal_def ascii_def)
  next
    case 3
    then have "u \<in> {65, 66, 67, 68, 69, 70}"
      by (simp only: insert_iff empty_iff) arith
    then show ?thesis by (auto simp: hexadecimal_def ascii_def)
  qed
next
  assume "hexadecimal u"
  then show "hex_digit u \<noteq> None"
    by (auto simp: hexadecimal_def ascii_def hex_digit_def)
qed

section \<open>Adjusting spaces: PUT /lessons/:id\<close>

lemma find_one_and_update_found:
  "find_lesson oid ls = Some l \<Longrightarrow>
   \<exists>ls'. find_one_and_update oid dl ls = (Some (l\<lparr>spaces := num_add (spaces l) dl\<rparr>), ls')
       \<and> find_lesson oid ls' = Some (l\<lparr>spaces := num_add (spaces l) dl\<rparr>)
       \<and> map lesson_id ls' = map lesson_id ls"
  by (induction ls) (auto simp: find_lesson_def Let_def split: prod.splits)

lemma find_one_and_update_missing:
  "find_lesson oid ls = None \<Longrightarrow> find_one_and_update oid dl ls = (None, ls)"
  by (induction ls) (auto simp: find_lesson_def split: if_splits)

text \<open>
  Whatever number the delta is, and whatever the sum comes to, the handler adds it to the
  lesson's spaces and answers with the lesson as it is after the update.
\<close>

lemma put_lesson_applies:
  assumes "new_ObjectId ident = Inr oid"
    and "find_lesson oid (lessons d) = Some l"
    and "to_number (member_of reqbody ''spacesDelta'') = Inr dl" "dl \<noteq> NaN"
  shows "\<exists>ls'. put_lesson ident reqbody d
            = Inr ((200, OneLesson (l\<lparr>spaces := num_add (spaces l) dl\<rparr>)), d\<lparr>lessons := ls'\<rparr>)
          \<and> find_lesson oid ls' = Some (l\<lparr>spaces := num_add (spaces l) dl\<rparr>)
          \<and> map lesson_id ls' = map lesson_id (lessons d)"
proof -
  have nn: "\<not> nullish reqbody"
    using assms(3,4) by (auto simp: nullish_def)
  obtain ls' where 1: "find_one_and_update oid dl (lessons d) = (Some (l\<lparr>spaces := num_add (spaces l) dl\<rparr>), ls')"
      and 2: "find_lesson oid ls' = Some (l\<lparr>spaces := num_add (spaces l) dl\<rparr>)"
      and 3: "map lesson_id ls' = map lesson_id (lessons d)"
    using find_one_and_update_found[OF assms(2)] by blast
  have "put_lesson ident reqbody d = Inr ((200, OneLesson (l\<lparr>spaces := num_add (spaces l) dl\<rparr>)), d\<lparr>lessons := ls'\<rparr>)"
    using nn assms 1 by (simp add: put_lesson_def isNaN_def Let_def)
  with 2 3 show ?thesis by blast
qed

lemma num_add_safe:
  "safe_integer (s + dl) \<Longrightarrow> num_add (Fin (of_int s)) (Fin (of_int dl)) = Fin (of_int (s + dl))"
  using round_double_of_int[of "s + dl"] by (simp add: safe_integer_def)

lemma math_id_valid: "new_ObjectId math_id = Inr math_oid"
  by (simp add: new_ObjectId_def math_id_def math_oid_def ascii_def hex_digit_def)

lemma seed_has_math: "find_lesson math_oid (lessons seed) = Some math"
  by (simp add: find_lesson_def seed_def math_def)

text \<open>
  C3. For an existing lesson with \<open>s\<close> spaces and an integer delta \<open>dl\<close> with
  \<open>s + dl \<ge> 0\<close>, the request succeeds (status 200), the lesson has \<open>s + dl\<close> spaces in the
  store afterwards, and the body of the answer is the lesson after the update. The
  integers are those that a double holds exactly: \<open>s\<close>, \<open>dl\<close> and their sum are at most
  \<open>2^53\<close> in size.
\<close>

theorem adjust_spaces_succeeds:
  assumes "new_ObjectId ident = Inr oid"
    and "find_lesson oid (lessons d) = Some l"
    and "spaces l = Fin (of_int s)"
    and "to_number (member_of reqbody ''spacesDelta'') = Inr (Fin (of_int dl))"
    and "safe_integer s" and "safe_integer dl" and "safe_integer (s + dl)"
    and "0 \<le> s + dl"
  shows "\<exists>ls'. put_lesson ident reqbody d
            = Inr ((200, OneLesson (l\<lparr>spaces := Fin (of_int (s + dl))\<rparr>)), d\<lparr>lessons := ls'\<rparr>)
          \<and> find_lesson oid ls' = Some (l\<lparr>spaces := Fin (of_int (s + dl))\<rparr>)"
proof -
  have "num_add (spaces l) (Fin (of_int dl)) = Fin (of_int (s + dl))"
    using assms(3) num_add_safe[OF assms(7)] by simp
  then show ?thesis
    using put_lesson_applies[OF assms(1) assms(2) assms(4)] by auto
qed

theorem adjust_spaces_succeeds_witness:
  "new_ObjectId math_id = Inr math_oid
   \<and> find_lesson math_oid (lessons seed) = Some math
   \<and> spaces math = Fin (of_int 5)
   \<and> to_number (member_of (delta_body (JNum (Fin (- 5)))) ''spacesDelta'') = Inr (Fin (of_int (- 5)))
   \<and> safe_integer 5 \<and> safe_integer (- 5) \<and> safe_integer (5 + (- 5))
   \<and> (0::int) \<le> 5 + (- 5)
   \<and> (\<exists>ls'. put_lesson math_id (delta_body (JNum (Fin (- 5)))) seed
            = Inr ((200, OneLesson (math\<lparr>spaces := Fin (of_int (5 + (- 5)))\<rparr>)), seed\<lparr>lessons := ls'\<rparr>)
          \<and> find_lesson math_oid ls' = Some (math\<lparr>spaces := Fin (of_int (5 + (- 5)))\<rparr>))"
proof -
  have h3: "spaces math = Fin (of_int 5)"
    by (simp add: math_def)
  have h4: "to_number (member_of (delta_body (JNum (Fin (- 5)))) ''spacesDelta'') = Inr (Fin (of_int (- 5)))"
    by (simp add: delta_body_def)
  have h5: "safe_integer 5" "safe_integer (- 5)" "safe_integer (5 + (- 5))"
    by (simp_all add: safe_integer_def)
  have h8: "(0::int) \<le> 5 + (- 5)"
    by simp
  from adjust_spaces_succeeds[OF math_id_valid seed_has_math h3 h4 h5 h8]
    math_id_valid seed_has_math h3 h4 h5 h8
  show ?thesis by blast
qed

lemma round_minus_one: "round_double (- 1) = Fin (- 1)"
  using round_double_of_int[of "- 1"] by simp

text \<open>
  C1 (as stated) asks that a delta with \<open>s + dl < 0\<close> is refused and leaves the spaces
  at \<open>s\<close>. The update sent to the store is an unconditional \<^verbatim>\<open>$inc\<close>: on the seed lesson
  with 5 spaces, a delta of \<open>-6\<close> is answered 200 and the lesson is left with \<open>-1\<close> spaces.
\<close>

theorem adjust_spaces_floor_counterexample:
  "spaces math = Fin 5 \<and> (5::int) + (- 6) < 0
   \<and> put_lesson math_id (delta_body (JNum (Fin (- 6)))) seed
     = Inr ((200, OneLesson (math\<lparr>spaces := Fin (- 1)\<rparr>)), seed\<lparr>lessons := [math\<lparr>spaces := Fin (- 1)\<rparr>]\<rparr>)"
  using math_id_valid
  by (simp add: put_lesson_def nullish_def delta_body_def isNaN_def seed_def math_def Let_def
        round_minus_one)

text \<open>
  C1 (amended). For an existing lesson with \<open>s\<close> spaces and an integer delta \<open>dl\<close> with
  \<open>s + dl < 0\<close> (integers of at most \<open>2^53\<close> in size, as is their sum), the request
  succeeds like any other: the answer is 200 with the updated lesson, and the lesson is
  left with the negative value \<open>s + dl\<close>. No floor is checked.
\<close>

theorem adjust_spaces_below_zero:
  assumes "new_ObjectId ident = Inr oid"
    and "find_lesson oid (lessons d) = Some l"
    and "spaces l = Fin (of_int s)"
    and "to_number (member_of reqbody ''spacesDelta'') = Inr (Fin (of_int dl))"
    and "safe_integer s" and "safe_integer dl" and "safe_integer (s + dl)"
    and "s + dl < 0"
  shows "\<exists>ls'. put_lesson ident reqbody d
            = Inr ((200, OneLesson (l\<lparr>spaces := Fin (of_int (s + dl))\<rparr>)), d\<lparr>lessons := ls'\<rparr>)
          \<and> find_lesson oid ls' = Some (l\<lparr>spaces := Fin (of_int (s + dl))\<rparr>)
          \<and> of_int (s + dl) < (0::rat)"
proof -
  have "num_add (spaces l) (Fin (of_int dl)) = Fin (of_int (s + dl))"
    using assms(3) num_add_safe[OF assms(7)] by simp
  moreover have "of_int (s + dl) < (0::rat)"
    using assms(8) by simp
  ultimately show ?thesis
    using put_lesson_applies[OF assms(1) assms(2) assms(4)] by auto
qed

theorem adjust_spaces_below_zero_witness:
  "new_ObjectId math_id = Inr math_oid
   \<and> find_lesson math_oid (lessons seed) = Some math
   \<and> spaces math = Fin (of_int 5)
   \<and> to_number (member_of (delta_body (JNum (Fin (- 6)))) ''spacesDelta'') = Inr (Fin (of_int (- 6)))
   \<and> safe_integer 5 \<and> safe_integer (- 6) \<and> safe_integer (5 + (- 6))
   \<and> (5::int) + (- 6) < 0
   \<and> (\<exists>ls'. put_lesson math_id (delta_body (JNum (Fin (- 6)))) seed
            = Inr ((200, OneLesson (math\<lparr>spaces := Fin (of_int (5 + (- 6)))\<rparr>)), seed\<lparr>lessons := ls'\<rparr>)
          \<and> find_lesson math_oid ls' = Some (math\<lparr>spaces := Fin (of_int (5 + (- 6)))\<rparr>)
          \<and> of_int (5 + (- 6)) < (0::rat))"
proof -
  have h3: "spaces math = Fin (of_int 5)"
    by (simp add: math_def)
  have h4: "to_number (member_of (delta_body (JNum (Fin (- 6)))) ''spacesDelta'') = Inr (Fin (of_int (- 6)))"
    by (simp add: delta_body_def)
  have h5: "safe_integer 5" "safe_integer (- 6)" "safe_integer (5 + (- 6))"
    by (simp_all add: safe_integer_def)
  have h8: "(5::int) + (- 6) < 0"
    by simp
  from adjust_spaces_below_zero[OF math_id_valid seed_has_math h3 h4 h5 h8]
    math_id_valid seed_has_math h3 h4 h5 h8
  show ?thesis by blast
qed

lemma round_thirteen_halves: "round_double (13 / 2) = Fin (13 / 2)"
  by code_simp

text \<open>
  C7 (as stated) asks that the delta be a finite integer. The only check is
  \<^verbatim>\<open>Number.isNaN(Number(spacesDelta))\<close>: the delta \<open>3/2\<close>, which is a number and not an
  integer, is added to the spaces, and so is the infinity that \<^verbatim>\<open>Number\<close> reads in the
  string \<^verbatim>\<open>Infinity\<close>.
\<close>

theorem fractional_delta_counterexample:
  "put_lesson math_id (delta_body (JNum (Fin (3 / 2)))) seed
     = Inr ((200, OneLesson (math\<lparr>spaces := Fin (13 / 2)\<rparr>)),
            seed\<lparr>lessons := [math\<lparr>spaces := Fin (13 / 2)\<rparr>]\<rparr>)
   \<and> put_lesson math_id (delta_body (JStr (ascii ''Infinity''))) seed
     = Inr ((200, OneLesson (math\<lparr>spaces := PInf\<rparr>)), seed\<lparr>lessons := [math\<lparr>spaces := PInf\<rparr>]\<rparr>)"
proof -
  have "trim (ascii ''Infinity'') = ascii ''Infinity''"
    by (simp add: trim_def ascii_def is_ws_def)
  then have "string_to_number (ascii ''Infinity'') = PInf"
    by (simp add: string_to_number_def str_decimal_literal_def str_unsigned_decimal_def ascii_def)
  then show ?thesis
    using math_id_valid
    by (simp add: put_lesson_def nullish_def delta_body_def isNaN_def seed_def math_def Let_def
          round_thirteen_halves)
qed

text \<open>
  C7 (amended). A request whose body is an object is refused, with 400 and before any
  store write, when \<^verbatim>\<open>Number\<close> reads no number in \<^verbatim>\<open>spacesDelta\<close>: when the field is
  missing, when it is a string that starts, after white space, with a character that no
  numeric literal starts with, and whenever \<^verbatim>\<open>Number\<close> gives \<open>NaN\<close>. A number is not
  refused, whether or not it is an integer or finite: it is added to the spaces of the
  lesson.
\<close>

theorem put_lesson_rejects_non_numbers:
  assumes "\<not> nullish reqbody" and "member_of reqbody ''spacesDelta'' = v"
  shows "(v = JUndefined \<longrightarrow>
            put_lesson ident reqbody d = Inr ((400, Text ''spacesDelta must be a number''), d))
       \<and> (v = JStr (ws @ core) \<and> blank ws \<and> core \<noteq> [] \<and> starts_no_number (hd core) \<longrightarrow>
            put_lesson ident reqbody d = Inr ((400, Text ''spacesDelta must be a number''), d))
       \<and> (to_number v = Inr NaN \<longrightarrow>
            put_lesson ident reqbody d = Inr ((400, Text ''spacesDelta must be a number''), d))
       \<and> (v = JNum n \<and> n \<noteq> NaN \<and> new_ObjectId ident = Inr oid
            \<and> find_lesson oid (lessons d) = Some l \<longrightarrow>
            (\<exists>ls'. put_lesson ident reqbody d
                     = Inr ((200, OneLesson (l\<lparr>spaces := num_add (spaces l) n\<rparr>)), d\<lparr>lessons := ls'\<rparr>)))"
proof -
  have nan: "put_lesson ident reqbody d = Inr ((400, Text ''spacesDelta must be a number''), d)"
    if "to_number v = Inr NaN"
    using that assms by (simp add: put_lesson_def isNaN_def)
  have 1: "to_number v = Inr NaN" if "v = JUndefined"
    using that by simp
  have 2: "to_number v = Inr NaN"
    if "v = JStr (ws @ core) \<and> blank ws \<and> core \<noteq> [] \<and> starts_no_number (hd core)"
    using that string_to_number_no_number[of ws core] by simp
  have 4: "\<exists>ls'. put_lesson ident reqbody d
                     = Inr ((200, OneLesson (l\<lparr>spaces := num_add (spaces l) n\<rparr>)), d\<lparr>lessons := ls'\<rparr>)"
    if "v = JNum n \<and> n \<noteq> NaN \<and> new_ObjectId ident = Inr oid \<and> find_lesson oid (lessons d) = Some l"
  proof -
    have "to_number (member_of reqbody ''spacesDelta'') = Inr n"
      using that assms(2) by simp
    then show ?thesis
      using put_lesson_applies[of ident oid d l reqbody n] that by blast
  qed
  show ?thesis
    using nan 1 2 4 by blast
qed

theorem put_lesson_rejects_non_numbers_witness:
  "put_lesson math_id (JObj []) seed = Inr ((400, Text ''spacesDelta must be a number''), seed)
   \<and> put_lesson math_id (delta_body (JStr (ascii '' two''))) seed
       = Inr ((400, Text ''spacesDelta must be a number''), seed)
   \<and> (\<exists>ls'. put_lesson math_id (delta_body (JNum NInf)) seed
              = Inr ((200, OneLesson (math\<lparr>spaces := num_add (spaces math) NInf\<rparr>)), seed\<lparr>lessons := ls'\<rparr>))"
proof -
  have a1: "\<not> nullish (JObj [])"
    by (simp add: nullish_def)
  have a2: "member_of (JObj []) ''spacesDelta'' = JUndefined"
    by simp
  have b1: "\<not> nullish (delta_body (JStr (ascii '' two'')))"
    by (simp add: nullish_def delta_body_def)
  have b2: "member_of (delta_body (JStr (ascii '' two''))) ''spacesDelta'' = JStr (ascii '' two'')"
    by (simp add: delta_body_def)
  have b3: "JStr (ascii '' two'') = JStr (ascii '' '' @ ascii ''two'') \<and> blank (ascii '' '')
            \<and> ascii ''two'' \<noteq> [] \<and> starts_no_number (hd (ascii ''two''))"
    by (simp add: ascii_def blank_def white_space_def starts_no_number_def)
  have c1: "\<not> nullish (delta_body (JNum NInf))"
    by (simp add: nullish_def delta_body_def)
  have c2: "member_of (delta_body (JNum NInf)) ''spacesDelta'' = JNum NInf"
    by (simp add: delta_body_def)
  have c3: "JNum NInf = JNum NInf \<and> NInf \<noteq> NaN \<and> new_ObjectId math_id = Inr math_oid
            \<and> find_lesson math_oid (lessons seed) = Some math"
    using math_id_valid seed_has_math by simp
  from put_lesson_rejects_non_numbers[OF a1 a2, where ident = math_id and d = seed]
    put_lesson_rejects_non_numbers[OF b1 b2, where ident = math_id and d = seed
      and ws = "ascii '' ''" and core = "ascii ''two''"]
    put_lesson_rejects_non_numbers[OF c1 c2, where ident = math_id and d = seed and n = NInf
      and oid = math_oid and l = math]
    b3 c3
  show ?thesis by blast
qed

text \<open>
  C10 (as stated) takes every path segment that is not 24 hexadecimal digits for an
  identity that the constructor refuses. The constructor also takes a string of 12
  characters for the 12 bytes of an identity: \<^verbatim>\<open>abcdefghijkl\<close> is looked up, no lesson
  has it, and the answer is 404.
\<close>

theorem twelve_character_id_counterexample:
  "\<not> (length (ascii ''abcdefghijkl'') = 24 \<and> list_all hexadecimal (ascii ''abcdefghijkl''))
   \<and> handle (Some seed) (put_lesson (ascii ''abcdefghijkl'') (delta_body (JNum (Fin 1))))
       = ((404, Text ''Lesson not found''), Some seed)"
  by (simp add: handle_def answer_def put_lesson_def nullish_def delta_body_def isNaN_def
        new_ObjectId_def ascii_def seed_def math_def math_oid_def)

text \<open>
  C10 (amended). A \<^verbatim>\<open>PUT /lessons/{id}\<close> whose path segment is neither 24 hexadecimal
  digits nor 12 ASCII characters, and whose \<^verbatim>\<open>spacesDelta\<close> is a number, is not answered
  404: the constructor of the identity throws, and the error handler answers 500 and
  leaves the store as it is.
\<close>

theorem put_lesson_refused_id:
  assumes "\<not> (length ident = 24 \<and> list_all hexadecimal ident)"
    and "\<not> (length ident = 12 \<and> list_all (\<lambda>u. u < 128) ident)"
    and "to_number (member_of reqbody ''spacesDelta'') = Inr n" and "n \<noteq> NaN"
  shows "put_lesson ident reqbody d = Inl BSONError
       \<and> handle (Some d) (put_lesson ident reqbody) = ((500, Text ''Server error''), Some d)"
proof -
  have nn: "\<not> nullish reqbody"
    using assms(3,4) by (auto simp: nullish_def)
  have "(\<lambda>u. hex_digit u \<noteq> None) = hexadecimal"
    by (rule ext) (rule hex_digit_iff)
  then have "new_ObjectId ident = Inl BSONError"
    using assms(1,2) by (auto simp: new_ObjectId_def)
  then have "put_lesson ident reqbody d = Inl BSONError"
    using nn assms(3,4) by (simp add: put_lesson_def isNaN_def Let_def)
  then show ?thesis
    by (simp add: handle_def answer_def)
qed

theorem put_lesson_refused_id_witness:
  "put_lesson (ascii ''lesson-42'') (delta_body (JNum (Fin 1))) seed = Inl BSONError
   \<and> handle (Some seed) (put_lesson (ascii ''lesson-42'') (delta_body (JNum (Fin 1))))
       = ((500, Text ''Server error''), Some seed)"
proof -
  have h1: "\<not> (length (ascii ''lesson-42'') = 24 \<and> list_all hexadecimal (ascii ''lesson-42''))"
    by (simp add: ascii_def)
  have h2: "\<not> (length (ascii ''lesson-42'') = 12 \<and> list_all (\<lambda>u. u < 128) (ascii ''lesson-42''))"
    by (simp add: ascii_def)
  have h3: "to_number (member_of (delta_body (JNum (Fin 1))) ''spacesDelta'') = Inr (Fin 1)"
    by (simp add: delta_body_def)
  have h4: "Fin 1 \<noteq> NaN"
    by simp
  from put_lesson_refused_id[OF h1 h2 h3 h4] show ?thesis .
qed

section \<open>Requests in flight together\<close>

lemma serve_puts_replicate:
  assumes "new_ObjectId ident = Inr oid"
    and "to_number (member_of reqbody ''spacesDelta'') = Inr (Fin (- 1))"
  shows "find_lesson oid (lessons d) = Some l \<Longrightarrow> spaces l = Fin (of_int k) \<Longrightarrow>
         safe_integer k \<Longrightarrow> safe_integer (k - int n) \<Longrightarrow>
         length (fst (serve_puts (replicate n (ident, reqbody)) d)) = n
       \<and> list_all (\<lambda>r. fst r = 200) (fst (serve_puts (replicate n (ident, reqbody)) d))
       \<and> find_lesson oid (lessons (snd (serve_puts (replicate n (ident, reqbody)) d)))
           = Some (l\<lparr>spaces := Fin (of_int (k - int n))\<rparr>)"
proof (induction n arbitrary: d l k)
  case 0
  then show ?case by simp
next
  case (Suc n)
  have nn: "Fin (- 1) \<noteq> NaN" by simp
  obtain ls' where 1: "put_lesson ident reqbody d
        = Inr ((200, OneLesson (l\<lparr>spaces := num_add (spaces l) (Fin (- 1))\<rparr>)), d\<lparr>lessons := ls'\<rparr>)"
      and 2: "find_lesson oid ls' = Some (l\<lparr>spaces := num_add (spaces l) (Fin (- 1))\<rparr>)"
    using put_lesson_applies[OF assms(1) Suc.prems(1) assms(2) nn] by blast
  let ?l' = "l\<lparr>spaces := Fin (of_int (k - 1))\<rparr>"
  let ?d' = "d\<lparr>lessons := ls'\<rparr>"
  have sk: "safe_integer (k - 1)"
    using Suc.prems(3,4) by (simp add: safe_integer_def)
  have "num_add (Fin (of_int k)) (Fin (of_int (- 1))) = Fin (of_int (k + (- 1)))"
    using sk by (intro num_add_safe) simp
  then have eq: "num_add (spaces l) (Fin (- 1)) = Fin (of_int (k - 1))"
    using Suc.prems(2) by simp
  have f: "find_lesson oid (lessons ?d') = Some ?l'"
    using 2 eq by simp
  have s: "spaces ?l' = Fin (of_int (k - 1))"
    by simp
  have sn: "safe_integer (k - 1 - int n)"
    using Suc.prems(4) by (simp add: algebra_simps)
  note IH = Suc.IH[OF f s sk sn]
  have step: "serve_puts (replicate (Suc n) (ident, reqbody)) d
      = ((200, OneLesson ?l') # fst (serve_puts (replicate n (ident, reqbody)) ?d'),
         snd (serve_puts (replicate n (ident, reqbody)) ?d'))"
    using 1 eq by (simp add: answer_def split: prod.splits)
  have "k - 1 - int n = k - int (Suc n)"
    by simp
  then show ?case
    using IH step by simp
qed

lemma mset_replicate_eq: "mset xs = mset (replicate n x) \<Longrightarrow> xs = replicate n x"
proof -
  assume a: "mset xs = mset (replicate n x)"
  then have "length xs = n"
    using mset_eq_length by fastforce
  moreover have "set xs \<subseteq> {x}"
    using mset_eq_setD[OF a] by auto
  ultimately show ?thesis
    by (auto intro: replicate_eqI)
qed

lemma round_zero: "round_double 0 = Fin 0"
  by (simp add: round_double_def)

text \<open>
  C2 (as stated) asks that of \<open>N\<close> concurrent decrements on a lesson with \<open>k < N\<close> spaces
  exactly \<open>k\<close> succeed and the spaces never go below zero. With one space left and two
  decrements, taken by the store one after the other, both are answered 200 and the
  lesson is left with \<open>-1\<close> spaces.
\<close>

theorem concurrent_decrements_counterexample:
  "serve_puts [take_one, take_one] one_left
     = ([(200, OneLesson (math\<lparr>spaces := Fin 0\<rparr>)), (200, OneLesson (math\<lparr>spaces := Fin (- 1)\<rparr>))],
        one_left\<lparr>lessons := [math\<lparr>spaces := Fin (- 1)\<rparr>]\<rparr>)"
  using math_id_valid
  by (simp add: take_one_def one_left_def answer_def put_lesson_def nullish_def delta_body_def
        isNaN_def math_def Let_def round_minus_one round_zero)

text \<open>
  C2 (amended). Of \<open>N\<close> concurrent decrements by one on a lesson with \<open>k < N\<close> spaces, in
  whatever order the store takes them, all \<open>N\<close> are answered 200 and the lesson is left
  with \<open>k - N\<close> spaces, a negative number. Here \<open>sched\<close> is the order in which the store
  takes the \<open>N\<close> requests, and \<open>N\<close> is at most \<open>2^53\<close>, so that every count is an integer
  that a double holds exactly.
\<close>

theorem concurrent_decrements_all_succeed:
  assumes "new_ObjectId ident = Inr oid"
    and "find_lesson oid (lessons d) = Some l"
    and "spaces l = Fin (of_int k)"
    and "to_number (member_of reqbody ''spacesDelta'') = Inr (Fin (- 1))"
    and "0 \<le> k" and "k < int N" and "int N \<le> 2 ^ 53"
    and "mset sched = mset (replicate N (ident, reqbody))"
  shows "length (fst (serve_puts sched d)) = N
       \<and> list_all (\<lambda>r. fst r = 200) (fst (serve_puts sched d))
       \<and> find_lesson oid (lessons (snd (serve_puts sched d)))
           = Some (l\<lparr>spaces := Fin (of_int (k - int N))\<rparr>)
       \<and> of_int (k - int N) < (0::rat)"
proof -
  have "sched = replicate N (ident, reqbody)"
    using assms(8) by (rule mset_replicate_eq)
  moreover have "of_int (k - int N) < (0::rat)"
    using assms(6) by simp
  moreover have "safe_integer k" "safe_integer (k - int N)"
    using assms(5,6,7) by (simp_all add: safe_integer_def)
  ultimately show ?thesis
    using serve_puts_replicate[OF assms(1) assms(4) assms(2) assms(3), of N] by simp
qed

theorem concurrent_decrements_all_succeed_witness:
  "length (fst (serve_puts [take_one, take_one] one_left)) = 2
   \<and> list_all (\<lambda>r. fst r = 200) (fst (serve_puts [take_one, take_one] one_left))
   \<and> find_lesson math_oid (lessons (snd (serve_puts [take_one, take_one] one_left)))
       = Some (math\<lparr>spaces := Fin (of_int (1 - int 2))\<rparr>)
   \<and> of_int (1 - int 2) < (0::rat)"
proof -
  have h2: "find_lesson math_oid (lessons one_left) = Some (math\<lparr>spaces := Fin 1\<rparr>)"
    by (simp add: find_lesson_def one_left_def math_def)
  have h3: "spaces (math\<lparr>spaces := Fin 1\<rparr>) = Fin (of_int 1)"
    by simp
  have h4: "to_number (member_of (delta_body (JNum (Fin (- 1)))) ''spacesDelta'') = Inr (Fin (- 1))"
    by (simp add: delta_body_def)
  have h5: "(0::int) \<le> 1"
    by simp
  have h6: "(1::int) < int 2"
    by simp
  have h7: "int 2 \<le> 2 ^ 53"
    by simp
  have h8: "mset [take_one, take_one] = mset (replicate 2 (math_id, delta_body (JNum (Fin (- 1)))))"
    by (simp add: take_one_def numeral_2_eq_2)
  from concurrent_decrements_all_succeed[OF math_id_valid h2 h3 h4 h5 h6 h7 h8]
  show ?thesis by simp
qed

section \<open>Searching: GET /search\<close>

lemma find_docs_numeric:
  "find_docs (Or [NumEq Price v, NumEq Spaces v]) ls
     = Some (filter (\<lambda>l. price l = v \<or> spaces l = v) ls)"
proof -
  have "query_holds (Or [NumEq Price v, NumEq Spaces v]) l = (price l = v \<or> spaces l = v)" for l
    by simp
  then have "filter (query_holds (Or [NumEq Price v, NumEq Spaces v])) ls
          = filter (\<lambda>l. price l = v \<or> spaces l = v) ls"
    by (simp cong: filter_cong)
  then show ?thesis
    by (simp add: find_docs_def)
qed

text \<open>
  C4. A token that writes a decimal number, with or without white space around it, is
  searched as a number: the answer is what a linear scan of the lessons with the
  predicate \<open>price = v \<or> spaces = v\<close> gives, where \<open>v\<close> is the double nearest to the
  number the token writes (what a JavaScript comparison \<^verbatim>\<open>price == t\<close> reads in the
  token too). It is the number itself when that is an integer of at most \<open>2^53\<close> in size.
\<close>

theorem search_numeric_token:
  assumes "numeral_ok n" and "blank ws1" and "blank ws2"
  shows "get_search (QStr (ws1 @ numeral_units n @ ws2)) d
           = Some (Inr ((200, Lessons (filter (\<lambda>l. price l = round_double (numeral_value n)
                                               \<or> spaces l = round_double (numeral_value n))
                                        (lessons d))), d))
       \<and> (numeral_value n = of_int z \<and> safe_integer z \<longrightarrow>
            round_double (numeral_value n) = Fin (of_int z))"
proof -
  have t: "trim (ws1 @ numeral_units n @ ws2) = numeral_units n"
    using assms by (rule trim_numeral)
  have ne: "numeral_units n \<noteq> []"
    using assms(1) by (rule numeral_units_nonempty)
  have v: "string_to_number (numeral_units n) = round_double (numeral_value n)"
    using assms(1) by (rule string_to_number_numeral)
  have tr: "translate (numeral_units n)
              = Or [NumEq Price (round_double (numeral_value n)), NumEq Spaces (round_double (numeral_value n))]"
    by (simp add: translate_def isNaN_def Let_def v round_double_number)
  have 1: "get_search (QStr (ws1 @ numeral_units n @ ws2)) d
           = Some (Inr ((200, Lessons (filter (\<lambda>l. price l = round_double (numeral_value n)
                                               \<or> spaces l = round_double (numeral_value n))
                                        (lessons d))), d))"
    using ne by (simp add: get_search_def t tr find_docs_numeric)
  have 2: "round_double (numeral_value n) = Fin (of_int z)"
    if "numeral_value n = of_int z \<and> safe_integer z"
    using that round_double_of_int[of z] by (simp add: safe_integer_def)
  show ?thesis
    using 1 2 by blast
qed

theorem search_numeric_token_witness:
  "[0xA0] @ numeral_units twenty @ ascii '' '' = 0xA0 # ascii ''20 ''
   \<and> get_search (QStr ([0xA0] @ numeral_units twenty @ ascii '' '')) seed
       = Some (Inr ((200, Lessons [math]), seed))"
proof -
  have h1: "numeral_ok twenty"
    by (simp add: numeral_ok_def twenty_def decimal_digits_def frac_ok_def exp_ok_def)
  have h2: "blank [0xA0]" "blank (ascii '' '')"
    by (simp_all add: blank_def white_space_def ascii_def)
  have u: "[0xA0] @ numeral_units twenty @ ascii '' '' = 0xA0 # ascii ''20 ''"
    by (simp add: numeral_units_def twenty_def digit_units_def frac_units_def exp_units_def ascii_def)
  have v: "numeral_value twenty = of_int 20 \<and> safe_integer 20"
    by (simp add: numeral_value_def twenty_def frac_value_def exp_value_def safe_integer_def)
  have "filter (\<lambda>l. price l = Fin (of_int 20) \<or> spaces l = Fin (of_int 20)) (lessons seed) = [math]"
    by (simp add: seed_def math_def)
  with search_numeric_token[OF h1 h2, of seed 20] v u show ?thesis
    by simp
qed

text \<open>
  C6. An absent \<^verbatim>\<open>q\<close> and a token made of white space only are answered 400, and no
  search is made. A token with text between its blanks is dispatched as that text: the
  query, on either path, is built from the token without the white space at its ends.
\<close>

theorem search_blank_token:
  assumes "blank t"
  shows "get_search QAbsent d = Some (Inr ((400, Text missing_q), d))
       \<and> get_search (QStr t) d = Some (Inr ((400, Text missing_q), d))
       \<and> (blank ws1 \<and> blank ws2 \<and> core \<noteq> []
            \<and> hd core \<notin> set white_space \<and> last core \<notin> set white_space \<longrightarrow>
          get_search (QStr (ws1 @ core @ ws2)) d
            = map_option (\<lambda>results. Inr ((200, Lessons results), d))
                (find_docs (translate core) (lessons d)))"
proof -
  have a: "trim [] = []"
    by (simp add: trim_def)
  have 3: "get_search (QStr (ws1 @ core @ ws2)) d
            = map_option (\<lambda>results. Inr ((200, Lessons results), d))
                (find_docs (translate core) (lessons d))"
    if "blank ws1 \<and> blank ws2 \<and> core \<noteq> [] \<and> hd core \<notin> set white_space \<and> last core \<notin> set white_space"
  proof -
    have "trim (ws1 @ core @ ws2) = core"
      using that by (intro trim_core) (simp_all add: is_ws_white_space)
    then show ?thesis
      using that by (simp add: get_search_def)
  qed
  show ?thesis
    using trim_blank[OF assms] a 3 by (simp add: get_search_def)
qed

lemma math_is_no_number: "string_to_number (ascii ''math'') = NaN"
  using string_to_number_no_number[of "[]" "ascii ''math''"]
  by (simp add: blank_def ascii_def starts_no_number_def white_space_def)

lemma find_math: "find_docs (translate (ascii ''math'')) (lessons seed) = Some [math]"
  using math_is_no_number
  by (simp add: translate_def isNaN_def find_docs_def seed_def math_def
        ascii_text_def regex_operator_def lower_unit_def ascii_def)

theorem search_blank_token_witness:
  "get_search QAbsent seed = Some (Inr ((400, Text missing_q), seed))
   \<and> get_search (QStr [0x20, 0xA0, 0x2003, 0x2028, 0xFEFF]) seed = Some (Inr ((400, Text missing_q), seed))
   \<and> get_search (QStr ([0xA0, 0x09] @ ascii ''math'' @ [0x20, 0x3000])) seed
       = Some (Inr ((200, Lessons [math]), seed))"
proof -
  have h: "blank [0x20, 0xA0, 0x2003, 0x2028, 0xFEFF]"
    by (simp add: blank_def white_space_def)
  have c: "blank [0xA0, 0x09] \<and> blank [0x20, 0x3000] \<and> ascii ''math'' \<noteq> []
           \<and> hd (ascii ''math'') \<notin> set white_space \<and> last (ascii ''math'') \<notin> set white_space"
    by (simp add: blank_def white_space_def ascii_def)
  from search_blank_token[OF h, of seed "[0xA0, 0x09]" "[0x20, 0x3000]" "ascii ''math''"] c find_math
  show ?thesis by simp
qed

text \<open>
  Text tokens. For an ASCII token without a dot and without an operator of the
  regular-expression syntax, searched in ASCII texts, the pattern is the token itself and
  the search is the case-insensitive substring search over subject, location and
  description.
\<close>

lemma compile_regex_literal:
  "list_all (\<lambda>u. u \<noteq> 46 \<and> \<not> regex_operator u \<and> u < 128) t \<Longrightarrow> compile_regex t = Some (map Lit t)"
  by (induction t) simp_all

lemma match_here_literal: "match_here (map Lit t) s = prefix (map lower_unit t) (map lower_unit s)"
proof (induction t arbitrary: s)
  case Nil
  then show ?case by simp
next
  case (Cons c t)
  then show ?case by (cases s) auto
qed

lemma match_anywhere_literal: "match_anywhere (map Lit t) s = ci_substring t s"
proof (induction s)
  case Nil
  then show ?case by (cases t) (simp_all add: ci_substring_def)
next
  case (Cons c s)
  then show ?case
    by (simp add: match_here_literal[of t "c # s"] ci_substring_def sublist_Cons_right del: match_here.simps)
qed

lemma search_literal_token:
  assumes "list_all (\<lambda>u. u \<noteq> 46 \<and> \<not> regex_operator u \<and> u < 128) (trim t)"
    and "trim t \<noteq> []" and "string_to_number (trim t) = NaN"
    and "list_all (\<lambda>l. ascii_text (subject l) \<and> ascii_text (location l) \<and> ascii_text (description l)) (lessons d)"
  shows "get_search (QStr t) d = Some (Inr ((200, Lessons (filter (text_match (trim t)) (lessons d))), d))"
proof -
  have c: "compile_regex (trim t) = Some (map Lit (trim t))"
    using assms(1) by (rule compile_regex_literal)
  have tr: "translate (trim t) = Or [RegexI Subject (trim t), RegexI Location (trim t), RegexI Description (trim t)]"
    using assms(3) by (simp add: translate_def isNaN_def)
  have "query_holds (translate (trim t)) l = text_match (trim t) l" for l
    by (simp add: tr c match_anywhere_literal text_match_def)
  then have "filter (query_holds (translate (trim t))) (lessons d) = filter (text_match (trim t)) (lessons d)"
    by (simp cong: filter_cong)
  moreover have "query_modelled (lessons d) (translate (trim t))"
    using assms(4) by (simp add: tr c list_all_iff)
  ultimately show ?thesis
    using assms(2) by (simp add: get_search_def find_docs_def)
qed

text \<open>
  C5 asks the same of every token that is not a number. The token is handed to the store
  as a pattern, not as a text: the token \<^verbatim>\<open>.\<close> is not a number, occurs in no field of
  the seed lesson, and the search returns the lesson.
\<close>

theorem dot_token_matches_everything:
  "string_to_number (ascii ''.'') = NaN
   \<and> get_search (QStr (ascii ''.'')) seed = Some (Inr ((200, Lessons [math]), seed))
   \<and> \<not> text_match (ascii ''.'') math"
proof -
  have t: "trim [46] = [46]"
    by (simp add: trim_def is_ws_def)
  have a: "string_to_number [46] = NaN"
    by (simp add: string_to_number_def t str_decimal_literal_def str_unsigned_decimal_def
          is_digit_def non_decimal_literal_def ascii_def)
  have b: "get_search (QStr [46]) seed = Some (Inr ((200, Lessons [math]), seed))"
    by (simp add: get_search_def t a translate_def isNaN_def find_docs_def seed_def math_def
          ascii_text_def ascii_def)
  have c: "\<not> text_match [46] math"
    by (simp add: text_match_def ci_substring_def math_def lower_unit_def ascii_def sublist_Cons_right)
  from a b c show ?thesis by (simp add: ascii_def)
qed

section \<open>Order intake: POST /orders\<close>

text \<open>
  C8 (as stated) asks that a payload with an empty list of items is refused and nothing
  is persisted. The check is \<^verbatim>\<open>!order.items\<close>, and an empty array is truthy: the order
  is stored and answered 200.
\<close>

theorem empty_items_counterexample:
  "post_orders 1000 (IdV 1) empty_items_order seed
   = Inr ((200, OrderOk (IdV 1)),
          seed\<lparr>orders := [[(''items'', Client (JArr [])), (''name'', Client (JStr (ascii ''Ann''))),
                            (''phone'', Client (JStr (ascii ''0123''))), (''createdAt'', DateV 1000),
                            (''_id'', IdV 1)]]\<rparr>)"
  by (simp add: post_orders_def empty_items_order_def insert_one_def doc_id_def seed_def Let_def
        ascii_def)

text \<open>
  C8 (amended). The handler refuses, with 400 and with nothing persisted, exactly the
  payloads that are falsy or whose \<^verbatim>\<open>items\<close>, \<^verbatim>\<open>name\<close> or \<^verbatim>\<open>phone\<close> is missing or
  falsy (\<^verbatim>\<open>null\<close>, \<^verbatim>\<open>false\<close>, \<open>0\<close>, the empty string). An empty list of items is truthy
  and passes.
\<close>

theorem post_orders_rejects_exactly_falsy:
  "post_orders now gen order d = Inr ((400, Text ''Invalid order payload''), d)
   \<longleftrightarrow> (\<not> truthy order \<or> \<not> truthy (member_of order ''items'')
        \<or> \<not> truthy (member_of order ''name'') \<or> \<not> truthy (member_of order ''phone''))"
  by (auto simp: post_orders_def split: sum.splits prod.splits)

theorem post_orders_rejects_exactly_falsy_witness:
  "member_of blank_name_order ''name'' = JStr []
   \<and> post_orders 1000 (IdV 1) blank_name_order seed = Inr ((400, Text ''Invalid order payload''), seed)"
proof -
  have n: "member_of blank_name_order ''name'' = JStr []"
    by (simp add: blank_name_order_def)
  then have "\<not> truthy (member_of blank_name_order ''name'')"
    by simp
  with post_orders_rejects_exactly_falsy[of 1000 "IdV 1" blank_name_order seed] n
  show ?thesis by blast
qed

text \<open>
  C9. For a valid payload the handler stores the order with \<^verbatim>\<open>createdAt\<close> set to the
  server's date at intake, whatever \<^verbatim>\<open>createdAt\<close> the payload brought. The store can
  refuse the insert only for an identity that a stored order already has.
\<close>

theorem order_timestamp_server_side:
  assumes "truthy order" and "truthy (member_of order ''items'')"
    and "truthy (member_of order ''name'')" and "truthy (member_of order ''phone'')"
  shows "(post_orders now gen order d = Inl MongoServerError \<and> orders d \<noteq> [])
       \<or> (\<exists>i doc. post_orders now gen order d = Inr ((200, OrderOk i), d\<lparr>orders := orders d @ [doc]\<rparr>)
             \<and> map_of doc ''createdAt'' = Some (DateV now))"
proof -
  let ?doc = "AList.update ''createdAt'' (DateV now) (map (\<lambda>(k, v). (k, Client v)) (spread order))"
  have c: "map_of ?doc ''createdAt'' = Some (DateV now)"
    by (simp add: update_conv')
  have c': "map_of (AList.update ''_id'' gen ?doc) ''createdAt'' = Some (DateV now)"
    by (simp add: update_conv')
  show ?thesis
    using assms c c'
    by (auto simp: post_orders_def insert_one_def Let_def simp del: AList.update.simps split: if_splits)
qed

theorem order_timestamp_server_side_witness:
  "member_of dated_order ''createdAt'' = JStr (ascii ''1999-01-01'')
   \<and> orders seed = []
   \<and> (\<exists>i doc. post_orders 1700000000000 (IdV 7) dated_order seed
                 = Inr ((200, OrderOk i), seed\<lparr>orders := orders seed @ [doc]\<rparr>)
             \<and> map_of doc ''createdAt'' = Some (DateV 1700000000000))"
proof -
  have h1: "truthy dated_order"
    by (simp add: dated_order_def)
  have h2: "truthy (member_of dated_order ''items'')"
    by (simp add: dated_order_def)
  have h3: "truthy (member_of dated_order ''name'')"
    by (simp add: dated_order_def ascii_def)
  have h4: "truthy (member_of dated_order ''phone'')"
    by (simp add: dated_order_def ascii_def)
  have e: "orders seed = []"
    by (simp add: seed_def)
  have c: "member_of dated_order ''createdAt'' = JStr (ascii ''1999-01-01'')"
    by (simp add: dated_order_def)
  from order_timestamp_server_side[OF h1 h2 h3 h4, of 1700000000000 "IdV 7" seed] e c
  show ?thesis by blast
qed

end
